theory Spec2Isabelle
  imports Complex_Main "HOL-Library.Sublist"
begin

unbundle bit_operations_syntax

section \<open>Values, exceptions and the collaborators\<close>

text \<open>
  The program is \<^verbatim>\<open>linkedin_browser_mcp.py\<close>. Python byte strings and text are
  \<open>string\<close>. An exception is a value: a call either \<open>Returns\<close> or \<open>Raises\<close>.
\<close>

datatype exn = ValueError | InvalidToken | JSONDecodeError | KeyError | TypeError
  | OverflowError | OSError | PlaywrightError

datatype 'a outcome = Returns 'a | Raises exn

text \<open>What \<^verbatim>\<open>json.loads\<close> can produce (numbers are the integers that
  \<^verbatim>\<open>int(time.time())\<close> stores).\<close>

datatype json = JNull | JBool bool | JInt int | JStr string | JList "json list"
  | JDict "(string \<times> json) list"

text \<open>
  The libraries the vault calls are parameters: \<^verbatim>\<open>Fernet(key)\<close> raises ValueError
  on a malformed key (\<open>key_ok\<close>), \<^verbatim>\<open>decrypt\<close> raises InvalidToken (\<open>None\<close>),
  \<^verbatim>\<open>json.loads\<close> raises JSONDecodeError (\<open>None\<close>), and playwright's
  \<^verbatim>\<open>add_cookies\<close> rejects what is not a list of cookies it accepts.
  The float arithmetic of the platform is a parameter too: \<open>nearest_float x\<close> is the
  float that a conversion or a subtraction with the exact result \<open>x\<close> yields (beyond the
  range of the floats it stands for the infinity of that sign).
\<close>

record libs =
  generate_key :: string
  key_ok :: "string \<Rightarrow> bool"
  encrypt :: "string \<Rightarrow> string \<Rightarrow> string"
  decrypt :: "string \<Rightarrow> string \<Rightarrow> string option"
  dumps :: "json \<Rightarrow> string"
  loads :: "string \<Rightarrow> json option"
  cookie_ok :: "json \<Rightarrow> bool"
  quote :: "string \<Rightarrow> string"
  nearest_float :: "real \<Rightarrow> real"

section \<open>The sessions directory\<close>

text \<open>
  The directory \<^verbatim>\<open>sessions\<close> beside the program: its mode when it exists, its files
  by name, the umask of the process, \<open>room\<close>, the number of bytes the disk still
  takes before a write fails (\<open>None\<close>: writes never fail), and \<open>locked\<close>, the names
  that the process may write but not remove (in a sticky directory, the file of another
  user).
  Modes are the nine permission bits, \<open>0o777 = 511\<close>, \<open>0o666 = 438\<close>.
\<close>

record entry =
  data :: string
  perm :: int

record fs =
  dir_perm :: "int option"
  entries :: "string \<Rightarrow> entry option"
  umask :: int
  room :: "nat option"
  locked :: "string \<Rightarrow> bool"

text \<open>
  \<^verbatim>\<open>path.exists()\<close>: \<^verbatim>\<open>True\<close> for a file of the directory, \<^verbatim>\<open>False\<close>
  when the stat finds nothing. A name of more than 255 bytes has no file, and the stat of it
  fails with ENAMETOOLONG, an OSError that \<^verbatim>\<open>exists()\<close> raises again. (A directory that
  the process may not search makes the stat fail in the same way for every name; the
  operations are modelled on a directory that can be searched.)
\<close>

definition path_exists :: "string \<Rightarrow> fs \<Rightarrow> bool outcome" where
  "path_exists name s =
     (case entries s name of
        Some f \<Rightarrow> Returns True
      | None \<Rightarrow> if 255 < length name then Raises OSError else Returns False)"

definition read_bytes :: "string \<Rightarrow> fs \<Rightarrow> string outcome" where
  "read_bytes name s = (case entries s name of None \<Rightarrow> Raises OSError | Some f \<Rightarrow> Returns (data f))"

text \<open>\<^verbatim>\<open>open(path, 'wb')\<close>: an existing file is truncated and keeps its mode, a new
  one gets \<open>0o666\<close> without the bits of the umask.\<close>

definition open_wb :: "string \<Rightarrow> fs \<Rightarrow> fs" where
  "open_wb name s =
     (case entries s name of
        None \<Rightarrow> s\<lparr>entries := (entries s)(name \<mapsto> \<lparr>data = [], perm = 438 AND NOT (umask s)\<rparr>)\<rparr>
      | Some f \<Rightarrow> s\<lparr>entries := (entries s)(name \<mapsto> f\<lparr>data := []\<rparr>)\<rparr>)"

text \<open>\<^verbatim>\<open>f.write(bytes)\<close> and the close of the \<^verbatim>\<open>with\<close> block: when the disk
  has room the bytes are stored; otherwise the part that fits is stored and OSError is raised.\<close>

definition write_bytes :: "string \<Rightarrow> string \<Rightarrow> fs \<Rightarrow> unit outcome \<times> fs" where
  "write_bytes name bs s =
     (case entries s name of
        None \<Rightarrow> (Raises OSError, s)
      | Some f \<Rightarrow>
          (case room s of
             None \<Rightarrow> (Returns (), s\<lparr>entries := (entries s)(name \<mapsto> f\<lparr>data := data f @ bs\<rparr>)\<rparr>)
           | Some k \<Rightarrow>
               if length bs \<le> k
               then (Returns (), s\<lparr>entries := (entries s)(name \<mapsto> f\<lparr>data := data f @ bs\<rparr>),
                                    room := Some (k - length bs)\<rparr>)
               else (Raises OSError, s\<lparr>entries := (entries s)(name \<mapsto> f\<lparr>data := data f @ take k bs\<rparr>),
                                      room := Some 0\<rparr>)))"

text \<open>\<^verbatim>\<open>path.unlink()\<close> raises FileNotFoundError on a missing file and
  PermissionError on a file that the process may not remove, both of them OSError.\<close>

definition unlink :: "string \<Rightarrow> fs \<Rightarrow> unit outcome \<times> fs" where
  "unlink name s =
     (case entries s name of
        None \<Rightarrow> (Raises OSError, s)
      | Some f \<Rightarrow>
          if locked s name then (Raises OSError, s)
          else (Returns (), s\<lparr>entries := (entries s)(name := None)\<rparr>))"

text \<open>\<^verbatim>\<open>sessions_dir.mkdir(mode=0o777, parents=True, exist_ok=True)\<close>\<close>

definition setup_sessions_directory :: "fs \<Rightarrow> fs" where
  "setup_sessions_directory s =
     (case dir_perm s of
        None \<Rightarrow> s\<lparr>dir_perm := Some (511 AND NOT (umask s))\<rparr>
      | Some m \<Rightarrow> s)"

section \<open>The credential vault\<close>

definition key_file :: string where
  "key_file = ''encryption.key''"

definition cookie_file :: "string \<Rightarrow> string" where
  "cookie_file platform = platform @ ''_cookies.json''"

text \<open>\<^verbatim>\<open>int(x)\<close> of a float truncates towards zero.\<close>

definition py_int :: "real \<Rightarrow> int" where
  "py_int x = (if 0 \<le> x then \<lfloor>x\<rfloor> else \<lceil>x\<rceil>)"

text \<open>\<^verbatim>\<open>value[key]\<close> for a string key: only a dict has string keys.\<close>

definition subscript :: "json \<Rightarrow> string \<Rightarrow> json outcome" where
  "subscript v k =
     (case v of
        JDict kvs \<Rightarrow> (case map_of kvs k of None \<Rightarrow> Raises KeyError | Some x \<Rightarrow> Returns x)
      | _ \<Rightarrow> Raises TypeError)"

text \<open>
  The right operand of \<^verbatim>\<open>time.time() - x\<close>, converted to a float: an integer becomes
  the nearest float, and OverflowError is raised for one that would round to \<open>2 ^ 1024\<close>
  or beyond; a bool counts as 1 or 0; anything else raises TypeError.
\<close>

definition float_overflow :: "int \<Rightarrow> bool" where
  "float_overflow i = (2 ^ 1024 - 2 ^ 970 \<le> \<bar>i\<bar>)"

definition as_number :: "libs \<Rightarrow> json \<Rightarrow> real outcome" where
  "as_number L v =
     (case v of
        JInt i \<Rightarrow> if float_overflow i then Raises OverflowError
                  else Returns (nearest_float L (of_int i))
      | JBool b \<Rightarrow> Returns (if b then 1 else 0)
      | _ \<Rightarrow> Raises TypeError)"

text \<open>The age of a timestamp as the float subtraction \<^verbatim>\<open>time.time() - t\<close> gives it.\<close>

definition age :: "libs \<Rightarrow> real \<Rightarrow> real \<Rightarrow> real" where
  "age L now t = nearest_float L (now - t)"

text \<open>\<^verbatim>\<open>context.add_cookies(cookies)\<close>: the context's jar is a list of cookies.\<close>

definition add_cookies :: "libs \<Rightarrow> json \<Rightarrow> json list \<Rightarrow> json list outcome" where
  "add_cookies L cs jar =
     (case cs of
        JList xs \<Rightarrow> if list_all (cookie_ok L) xs then Returns (jar @ xs) else Raises PlaywrightError
      | _ \<Rightarrow> Raises PlaywrightError)"

text \<open>\<^verbatim>\<open>save_cookies(page, platform)\<close>, with the jar of the page's context and the
  clock reading \<open>now\<close>.\<close>

definition cookie_data_of :: "real \<Rightarrow> json list \<Rightarrow> json" where
  "cookie_data_of now jar = JDict [(''timestamp'', JInt (py_int now)), (''cookies'', JList jar)]"

definition obtain_key :: "libs \<Rightarrow> fs \<Rightarrow> string outcome \<times> fs" where
  "obtain_key L s =
     (case path_exists key_file s of
        Raises e \<Rightarrow> (Raises e, s)
      | Returns True \<Rightarrow> (read_bytes key_file s, s)
      | Returns False \<Rightarrow>
          (case write_bytes key_file (generate_key L) (open_wb key_file s) of
             (Raises e, s') \<Rightarrow> (Raises e, s')
           | (Returns u, s') \<Rightarrow> (Returns (generate_key L), s')))"

definition save_cookies :: "libs \<Rightarrow> real \<Rightarrow> json list \<Rightarrow> string \<Rightarrow> fs \<Rightarrow> unit outcome \<times> fs" where
  "save_cookies L now jar platform s =
     (case obtain_key L (setup_sessions_directory s) of
        (Raises e, s1) \<Rightarrow> (Raises e, s1)
      | (Returns key, s1) \<Rightarrow>
          if \<not> key_ok L key then (Raises ValueError, s1)
          else write_bytes (cookie_file platform)
                 (encrypt L key (dumps L (cookie_data_of now jar)))
                 (open_wb (cookie_file platform) s1))"

text \<open>The body of the \<^verbatim>\<open>try\<close> block of \<^verbatim>\<open>load_cookies(context, platform)\<close>:
  the result, the context's jar and the directory.\<close>

definition load_try :: "libs \<Rightarrow> real \<Rightarrow> string \<Rightarrow> json list \<Rightarrow> fs \<Rightarrow> bool outcome \<times> json list \<times> fs" where
  "load_try L now platform jar s =
     (case read_bytes key_file s of
        Raises e \<Rightarrow> (Raises e, jar, s)
      | Returns key \<Rightarrow>
     (case read_bytes (cookie_file platform) s of
        Raises e \<Rightarrow> (Raises e, jar, s)
      | Returns encrypted \<Rightarrow>
     if \<not> key_ok L key then (Raises ValueError, jar, s)
     else
     (case decrypt L key encrypted of
        None \<Rightarrow> (Raises InvalidToken, jar, s)
      | Some plain \<Rightarrow>
     (case loads L plain of
        None \<Rightarrow> (Raises JSONDecodeError, jar, s)
      | Some cookie_data \<Rightarrow>
     (case subscript cookie_data ''timestamp'' of
        Raises e \<Rightarrow> (Raises e, jar, s)
      | Returns ts \<Rightarrow>
     (case as_number L ts of
        Raises e \<Rightarrow> (Raises e, jar, s)
      | Returns t \<Rightarrow>
     if age L now t > 86400
     then (case unlink (cookie_file platform) s of
             (Raises e, s') \<Rightarrow> (Raises e, jar, s')
           | (Returns u, s') \<Rightarrow> (Returns False, jar, s'))
     else
     (case subscript cookie_data ''cookies'' of
        Raises e \<Rightarrow> (Raises e, jar, s)
      | Returns cs \<Rightarrow>
     (case add_cookies L cs jar of
        Raises e \<Rightarrow> (Raises e, jar, s)
      | Returns jar' \<Rightarrow> (Returns True, jar', s)))))))))"

text \<open>
  \<^verbatim>\<open>if not cookie_file.exists() or not key_file.exists(): return False\<close> stands before
  the \<^verbatim>\<open>try\<close>: what the two tests raise reaches the caller, and the second test is
  made only when the first one gave \<^verbatim>\<open>True\<close>. Then \<^verbatim>\<open>except Exception\<close> turns
  every exception of the body into \<^verbatim>\<open>False\<close>.
\<close>

definition load_cookies :: "libs \<Rightarrow> real \<Rightarrow> string \<Rightarrow> json list \<Rightarrow> fs \<Rightarrow> bool outcome \<times> json list \<times> fs" where
  "load_cookies L now platform jar s =
     (case path_exists (cookie_file platform) s of
        Raises e \<Rightarrow> (Raises e, jar, s)
      | Returns False \<Rightarrow> (Returns False, jar, s)
      | Returns True \<Rightarrow>
     (case path_exists key_file s of
        Raises e \<Rightarrow> (Raises e, jar, s)
      | Returns False \<Rightarrow> (Returns False, jar, s)
      | Returns True \<Rightarrow>
     (case load_try L now platform jar s of
        (Raises e, jar', s') \<Rightarrow> (Returns False, jar', s')
      | (Returns b, jar', s') \<Rightarrow> (Returns b, jar', s'))))"

section \<open>The browser\<close>

text \<open>
  A JavaScript object whose fields the Python code never reads is a list of fields. A
  post is read by its \<^verbatim>\<open>urn\<close> only; \<open>props\<close> holds the other fields
  (url, author, date, content, reactions, comments).
\<close>

type_synonym obj = "(string \<times> string) list"

record post =
  urn :: string
  props :: obj

text \<open>
  A link to a profile on the people search page: its address, and the fields the profile
  script reads for it (\<open>None\<close> when the text of the link is shorter than three characters
  or no name is found). A profile as the script returns it: the address without its query
  part, and the other fields (name, headline, location, connection degree).
\<close>

record anchor =
  href :: string
  shown :: "obj option"

record person =
  person_url :: string
  details :: obj

text \<open>
  A page as the operations see it: \<^verbatim>\<open>page.url\<close> after navigation; \<open>views\<close>, what
  the post extraction script returns now (the head) and after each further scroll;
  the links to profiles in document order; the profile card; the comments button; the post
  with its comments before and after the comments were opened; the cookies the site has set
  in the context.
\<close>

record page =
  url :: string
  views :: "post list list"
  anchors :: "anchor list"
  profile :: obj
  comment_buttons :: nat
  click_ok :: bool
  post_data :: "bool \<Rightarrow> obj \<times> obj list"
  fresh_cookies :: "json list"

text \<open>
  The environment of one operation: the libraries, the clock when the session is entered
  and when the cookies are saved, the page each address leads to, the credentials of the
  process environment (after \<^verbatim>\<open>strip()\<close>), and whether the manual login reaches the
  feed within the five minutes.
\<close>

record env =
  lib :: libs
  opened_at :: real
  saved_at :: real
  site :: "string \<Rightarrow> page"
  username :: string
  password :: string
  login_completes :: bool

text \<open>What an operation does to the browser, in order.\<close>

datatype script = FeedScript | SearchPostsScript | ProfilesScript int | ProfileScript | PostScript

datatype event = Goto string | WaitForTimeout nat | Evaluate script | ScrollBy
  | WaitForSelector | LocatorCount | Click | Fill string string | WaitForUrl
  | ContextCookies | Sleep nat

text \<open>The result envelope of an operation, before \<^verbatim>\<open>json.dumps\<close>.\<close>

datatype envelope =
    Error string
  | Message string
  | Posts "post list" nat
  | FoundPosts "post list" nat string
  | FoundProfiles "person list" nat string
  | ProfileView obj string
  | PostView string obj "obj list" nat

fun status :: "envelope \<Rightarrow> string" where
  "status (Error m) = ''error''"
| "status e = ''success''"

type_synonym result = "envelope outcome \<times> fs \<times> event list"

text \<open>\<^verbatim>\<open>sub in s\<close> on strings.\<close>

fun py_in :: "string \<Rightarrow> string \<Rightarrow> bool" where
  "py_in sub [] = (sub = [])"
| "py_in sub (c # s) = (prefix sub (c # s) \<or> py_in sub s)"

text \<open>\<^verbatim>\<open>xs[:count]\<close>: a negative bound counts from the end.\<close>

definition slice_to :: "'a list \<Rightarrow> int \<Rightarrow> 'a list" where
  "slice_to xs c = (if 0 \<le> c then take (nat c) xs else take (length xs - nat (- c)) xs)"

text \<open>\<^verbatim>\<open>BrowserSession.__aenter__\<close>: the directory, a fresh context, the stored
  cookies. The two names of the platform \<^verbatim>\<open>linkedin\<close> are short, so the load returns
  (\<open>load_cookies_linkedin_returns\<close> below), and the entry keeps the jar and the
  directory.\<close>

definition aenter :: "env \<Rightarrow> fs \<Rightarrow> json list \<times> fs" where
  "aenter E s =
     (case load_cookies (lib E) (opened_at E) ''linkedin'' [] (setup_sessions_directory s) of
        (r, jar, s') \<Rightarrow> (jar, s'))"

text \<open>\<^verbatim>\<open>await save_cookies(page, 'linkedin')\<close> followed by the \<^verbatim>\<open>return\<close> of
  the envelope.\<close>

definition save_and_return :: "env \<Rightarrow> page \<Rightarrow> json list \<Rightarrow> fs \<Rightarrow> event list \<Rightarrow> envelope \<Rightarrow> result" where
  "save_and_return E pg jar s evs e =
     (case save_cookies (lib E) (saved_at E) (jar @ fresh_cookies pg) ''linkedin'' s of
        (Raises x, s') \<Rightarrow> (Raises x, s', evs @ [ContextCookies])
      | (Returns u, s') \<Rightarrow> (Returns e, s', evs @ [ContextCookies]))"

section \<open>The scroll loop of the feed and of the post search\<close>

text \<open>\<^verbatim>\<open>any(existing['urn'] == p['urn'] for existing in posts)\<close>\<close>

definition seen :: "post list \<Rightarrow> post \<Rightarrow> bool" where
  "seen posts p = list_ex (\<lambda>existing. urn existing = urn p) posts"

text \<open>\<^verbatim>\<open>for p in new_posts: if not any(...): posts.append(p)\<close>\<close>

fun merge_new :: "post list \<Rightarrow> post list \<Rightarrow> post list" where
  "merge_new posts [] = posts"
| "merge_new posts (p # new_posts) =
     merge_new (if seen posts p then posts else posts @ [p]) new_posts"

definition evaluate_posts :: "page \<Rightarrow> post list" where
  "evaluate_posts pg = (case views pg of [] \<Rightarrow> [] | v # vs \<Rightarrow> v)"

definition scroll_by :: "page \<Rightarrow> page" where
  "scroll_by pg = pg\<lparr>views := drop 1 (views pg)\<rparr>"

text \<open>\<^verbatim>\<open>for scroll_attempt in range(...)\<close>: the first argument counts the
  iterations that are left.\<close>

fun scroll_loop :: "script \<Rightarrow> nat \<Rightarrow> int \<Rightarrow> post list \<times> page \<times> event list \<Rightarrow> post list \<times> page \<times> event list" where
  "scroll_loop sc 0 count st = st"
| "scroll_loop sc (Suc n) count (posts, pg, evs) =
     (let posts' = merge_new posts (evaluate_posts pg);
          evs' = evs @ [Evaluate sc]
      in if count \<le> int (length posts') then (posts', pg, evs')
         else scroll_loop sc n count (posts', scroll_by pg, evs' @ [ScrollBy, WaitForTimeout 1500]))"

text \<open>\<^verbatim>\<open>range(min(count + 2, 10))\<close> has no element when its bound is not positive.\<close>

definition attempts :: "int \<Rightarrow> nat" where
  "attempts count = nat (min (count + 2) 10)"

section \<open>The operations\<close>

definition feed_url :: string where
  "feed_url = ''https://www.linkedin.com/feed/''"

definition do_browse_feed :: "env \<Rightarrow> int \<Rightarrow> fs \<Rightarrow> result" where
  "do_browse_feed E count s =
     (case aenter E s of (jar, s1) \<Rightarrow>
        let pg = site E feed_url; evs = [Goto feed_url] in
        if py_in ''login'' (url pg) then (Returns (Error ''Not logged in''), s1, evs)
        else
          (case scroll_loop FeedScript (attempts count) count ([], pg, evs @ [WaitForTimeout 5000]) of
             (posts, pg', evs') \<Rightarrow>
               save_and_return E pg' jar s1 evs' (Posts (slice_to posts count) (length posts))))"

text \<open>
  The script of the profile search, evaluated with count as its argument:
  \<^verbatim>\<open>profileLinks.forEach(link => { if (profiles.length >= count) return;
  const url = link.href.split('?')[0]; if (seenUrls.has(url)) return; ...
  seenUrls.add(url); profiles.push({..., url: url, ...}) })\<close>
\<close>

definition base_url :: "string \<Rightarrow> string" where
  "base_url h = takeWhile (\<lambda>c. c \<noteq> CHR ''?'') h"

fun collect_links :: "int \<Rightarrow> person list \<Rightarrow> string list \<Rightarrow> anchor list \<Rightarrow> person list" where
  "collect_links count profiles seen_urls [] = profiles"
| "collect_links count profiles seen_urls (link # links) =
     (if count \<le> int (length profiles) then collect_links count profiles seen_urls links
      else if base_url (href link) \<in> set seen_urls then collect_links count profiles seen_urls links
      else (case shown link of
              None \<Rightarrow> collect_links count profiles seen_urls links
            | Some d \<Rightarrow>
                collect_links count (profiles @ [\<lparr>person_url = base_url (href link), details = d\<rparr>])
                  (seen_urls @ [base_url (href link)]) links))"

definition people :: "page \<Rightarrow> int \<Rightarrow> person list" where
  "people pg count = collect_links count [] [] (anchors pg)"

definition people_url :: "env \<Rightarrow> string \<Rightarrow> string" where
  "people_url E query =
     ''https://www.linkedin.com/search/results/people/?keywords='' @ quote (lib E) query"

definition do_search_profiles :: "env \<Rightarrow> string \<Rightarrow> int \<Rightarrow> fs \<Rightarrow> result" where
  "do_search_profiles E query count s =
     (case aenter E s of (jar, s1) \<Rightarrow>
        let pg = site E (people_url E query); evs = [Goto (people_url E query)] in
        if py_in ''login'' (url pg) then (Returns (Error ''Not logged in''), s1, evs)
        else
          let profiles = people pg count in
          save_and_return E pg jar s1 (evs @ [WaitForTimeout 5000, Evaluate (ProfilesScript count)])
            (FoundProfiles profiles (length profiles) query))"

definition content_url :: "env \<Rightarrow> string \<Rightarrow> string" where
  "content_url E query =
     ''https://www.linkedin.com/search/results/content/?keywords='' @ quote (lib E) query"

definition do_search_posts :: "env \<Rightarrow> string \<Rightarrow> int \<Rightarrow> fs \<Rightarrow> result" where
  "do_search_posts E query count s =
     (case aenter E s of (jar, s1) \<Rightarrow>
        let pg = site E (content_url E query); evs = [Goto (content_url E query)] in
        if py_in ''login'' (url pg) then (Returns (Error ''Not logged in''), s1, evs)
        else
          (case scroll_loop SearchPostsScript (attempts count) count ([], pg, evs @ [WaitForTimeout 5000]) of
             (posts, pg', evs') \<Rightarrow>
               save_and_return E pg' jar s1 evs'
                 (FoundPosts (slice_to posts count) (length posts) query)))"

text \<open>\<^verbatim>\<open>wait_for_selector\<close> may time out; the bare \<^verbatim>\<open>except\<close> only logs it.\<close>

definition do_view_profile :: "env \<Rightarrow> string \<Rightarrow> fs \<Rightarrow> result" where
  "do_view_profile E profile_url s =
     (if \<not> py_in ''linkedin.com/in/'' profile_url
      then (Returns (Error ''Invalid LinkedIn profile URL''), s, [])
      else
        (case aenter E s of (jar, s1) \<Rightarrow>
           let pg = site E profile_url; evs = [Goto profile_url] in
           if py_in ''login'' (url pg) then (Returns (Error ''Not logged in''), s1, evs)
           else
             save_and_return E pg jar s1
               (evs @ [WaitForSelector, WaitForTimeout 3000, Evaluate ProfileScript])
               (ProfileView (profile pg) profile_url)))"

text \<open>The \<^verbatim>\<open>try\<close> block around the comments button: the click happens when the
  locator matches, and the wait of two seconds only when the click did not raise.\<close>

definition open_comments :: "page \<Rightarrow> bool \<times> event list" where
  "open_comments pg =
     (if 0 < comment_buttons pg
      then (if click_ok pg then (True, [LocatorCount, Click, WaitForTimeout 2000])
            else (False, [LocatorCount, Click]))
      else (False, [LocatorCount]))"

definition do_interact_post :: "env \<Rightarrow> string \<Rightarrow> string \<Rightarrow> string option \<Rightarrow> fs \<Rightarrow> result" where
  "do_interact_post E post_url action comment s =
     (if \<not> py_in ''linkedin.com/posts/'' post_url \<and> \<not> py_in ''linkedin.com/feed/update/'' post_url
      then (Returns (Error ''Invalid LinkedIn post URL''), s, [])
      else
        (case aenter E s of (jar, s1) \<Rightarrow>
           let pg = site E post_url; evs = [Goto post_url] in
           if py_in ''login'' (url pg) then (Returns (Error ''Not logged in''), s1, evs)
           else
             (case open_comments pg of (opened, clicks) \<Rightarrow>
                (case post_data pg opened of (the_post, the_comments) \<Rightarrow>
                   save_and_return E pg jar s1
                     (evs @ [WaitForTimeout 5000] @ clicks @ [Evaluate PostScript])
                     (PostView action the_post the_comments (length the_comments))))))"

definition login_url :: string where
  "login_url = ''https://www.linkedin.com/login''"

definition fill_credentials :: "env \<Rightarrow> event list" where
  "fill_credentials E =
     (if username E \<noteq> [] then [Fill ''#username'' (username E)] else []) @
     (if password E \<noteq> [] then [Fill ''#password'' (password E)] else [])"

text \<open>The bare \<^verbatim>\<open>except\<close> around the wait for the feed also catches what
  \<^verbatim>\<open>save_cookies\<close> raises.\<close>

definition do_login :: "env \<Rightarrow> fs \<Rightarrow> result" where
  "do_login E s =
     (case aenter E s of (jar, s1) \<Rightarrow>
        let pg = site E login_url; evs = [Goto login_url] in
        if py_in ''feed'' (url pg)
        then save_and_return E pg jar s1 evs (Message ''Already logged in'')
        else
          let evs' = evs @ fill_credentials E @ [WaitForUrl] in
          if login_completes E
          then (case save_cookies (lib E) (saved_at E) (jar @ fresh_cookies pg) ''linkedin'' s1 of
                  (Raises x, s') \<Rightarrow> (Returns (Error ''Login timeout''), s', evs' @ [ContextCookies])
                | (Returns u, s') \<Rightarrow>
                    (Returns (Message ''Login successful''), s', evs' @ [ContextCookies, Sleep 2]))
          else (Returns (Error ''Login timeout''), s1, evs'))"

section \<open>Reference notions for the statements\<close>

text \<open>The posts of a sequence in the order of their first observation, one per urn.\<close>

fun first_seen :: "post list \<Rightarrow> post list" where
  "first_seen [] = []"
| "first_seen (p # ps) = p # first_seen (filter (\<lambda>q. urn q \<noteq> urn p) ps)"

definition evaluations :: "event list \<Rightarrow> nat" where
  "evaluations evs = length (filter (\<lambda>ev. case ev of Evaluate sc \<Rightarrow> True | _ \<Rightarrow> False) evs)"

definition scrolls :: "event list \<Rightarrow> nat" where
  "scrolls evs = length (filter (\<lambda>ev. ev = ScrollBy) evs)"

definition save_completes :: "env \<Rightarrow> page \<Rightarrow> fs \<Rightarrow> bool" where
  "save_completes E pg s =
     (case aenter E s of (jar, s1) \<Rightarrow>
        fst (save_cookies (lib E) (saved_at E) (jar @ fresh_cookies pg) ''linkedin'' s1) = Returns ())"

text \<open>An operation that stopped at the authentication check: the error envelope, no
  evaluation of an extraction script, no read of the cookies for a save, and the directory
  as the entry of the session left it.\<close>

definition short_circuited :: "env \<Rightarrow> fs \<Rightarrow> result \<Rightarrow> bool" where
  "short_circuited E s r =
     (fst r = Returns (Error ''Not logged in'') \<and> evaluations (snd (snd r)) = 0 \<and>
      ContextCookies \<notin> set (snd (snd r)) \<and> fst (snd r) = snd (aenter E s))"

text \<open>An outcome with the echoed action of a post envelope replaced.\<close>

definition with_action :: "string \<Rightarrow> envelope outcome \<Rightarrow> envelope outcome" where
  "with_action a r =
     (case r of Returns (PostView a' p cs n) \<Rightarrow> Returns (PostView a p cs n) | _ \<Rightarrow> r)"

text \<open>The bytes of the bundle that a save writes.\<close>

definition bundle_bytes :: "libs \<Rightarrow> string \<Rightarrow> real \<Rightarrow> json list \<Rightarrow> string" where
  "bundle_bytes L key now jar = encrypt L key (dumps L (cookie_data_of now jar))"

text \<open>The mode of a file of the directory, and a mode without any bit for group or others
  (\<open>0o077 = 63\<close>).\<close>

text \<open>A timestamp that the load finds older than 24 hours: it converts to a float, and
  the age that the float subtraction gives exceeds 86400.\<close>

definition expired :: "libs \<Rightarrow> real \<Rightarrow> int \<Rightarrow> bool" where
  "expired L now issued_at =
     (\<not> float_overflow issued_at \<and> age L now (nearest_float L (of_int issued_at)) > 86400)"

definition mode_of :: "fs \<Rightarrow> string \<Rightarrow> int option" where
  "mode_of s name = map_option perm (entries s name)"

definition owner_only :: "int \<Rightarrow> bool" where
  "owner_only m = (m AND 63 = 0)"

section \<open>Concrete environments\<close>

text \<open>A small cipher and codec, pages and disks on which the operations are run.\<close>

definition demo_bundle :: "int \<Rightarrow> json" where
  "demo_bundle t = JDict [(''timestamp'', JInt t), (''cookies'', JList [JStr ''li_at''])]"

definition demo_libs :: libs where
  "demo_libs = \<lparr>generate_key = ''K'', key_ok = (\<lambda>k. k = ''K''), encrypt = (\<lambda>k m. ''enc:'' @ m),
     decrypt = (\<lambda>k c. if take 4 c = ''enc:'' then Some (drop 4 c) else None),
     dumps = (\<lambda>j. ''fresh''),
     loads = (\<lambda>t. if t = ''stale'' then Some (demo_bundle 599)
                 else if t = ''fresh'' then Some (demo_bundle 601)
                 else if t = ''huge'' then Some (demo_bundle (10 ^ 400)) else None),
     cookie_ok = (\<lambda>c. True), quote = (\<lambda>q. q), nearest_float = (\<lambda>x. x)\<rparr>"

definition demo_page :: "string \<Rightarrow> post list list \<Rightarrow> page" where
  "demo_page u vs = \<lparr>url = u, views = vs, anchors = [], profile = [], comment_buttons = 0,
     click_ok = True, post_data = (\<lambda>b. ([], [])), fresh_cookies = []\<rparr>"

definition demo_env :: "page \<Rightarrow> env" where
  "demo_env pg = \<lparr>lib = demo_libs, opened_at = 87000, saved_at = 87000, site = (\<lambda>t. pg),
     username = [], password = [], login_completes = True\<rparr>"

definition fresh_disk :: fs where
  "fresh_disk = \<lparr>dir_perm = None, entries = (\<lambda>n. None), umask = 18, room = None,
     locked = (\<lambda>n. False)\<rparr>"

definition demo_post :: "string \<Rightarrow> post" where
  "demo_post k = \<lparr>urn = k, props = []\<rparr>"

definition five_posts :: "post list" where
  "five_posts = [demo_post ''a'', demo_post ''b'', demo_post ''c'', demo_post ''d'', demo_post ''e'']"

definition scenario_views :: "post list list" where
  "scenario_views =
     [[demo_post ''a'', demo_post ''b'', demo_post ''c''],
      [demo_post ''b'', demo_post ''c'', demo_post ''d'', demo_post ''e''],
      [demo_post ''d'', demo_post ''e'', demo_post ''f'', demo_post ''g'']]"

definition scenario_env :: env where
  "scenario_env = demo_env (demo_page feed_url scenario_views)"

definition short_env :: env where
  "short_env = demo_env (demo_page feed_url [[demo_post ''a'', demo_post ''b'', demo_post ''c'']])"

definition login_env :: env where
  "login_env = demo_env (demo_page login_url [])"

definition people_page :: page where
  "people_page = (demo_page ''https://www.linkedin.com/search/results/people/?keywords=ada''
      [[demo_post ''a''], [demo_post ''b''], [demo_post ''c'']])
     \<lparr>anchors := [\<lparr>href = ''https://www.linkedin.com/in/ada?mini=true'', shown = Some [(''name'', ''Ada'')]\<rparr>,
                   \<lparr>href = ''https://www.linkedin.com/in/ada'', shown = Some [(''name'', ''Ada'')]\<rparr>,
                   \<lparr>href = ''https://www.linkedin.com/in/x'', shown = None\<rparr>]\<rparr>"

definition ada :: person where
  "ada = \<lparr>person_url = ''https://www.linkedin.com/in/ada'', details = [(''name'', ''Ada'')]\<rparr>"

definition people_env :: env where
  "people_env = demo_env people_page"

definition namesake_url :: string where
  "namesake_url = ''https://www.linkedin.com/in/login-name''"

definition namesake_env :: env where
  "namesake_env = demo_env (demo_page namesake_url [])"

definition post_address :: string where
  "post_address = ''https://www.linkedin.com/posts/ada_1''"

definition post_env :: env where
  "post_env = demo_env ((demo_page post_address [])
     \<lparr>comment_buttons := 1, post_data := (\<lambda>opened. ([(''author'', ''Ada'')],
          if opened then [[(''author'', ''Bob''), (''text'', ''Nice'')]] else []))\<rparr>)"

definition stored_disk :: "string \<Rightarrow> fs" where
  "stored_disk bundle = \<lparr>dir_perm = Some 493,
     entries = (\<lambda>n. if n = ''encryption.key'' then Some \<lparr>data = ''K'', perm = 420\<rparr>
                    else if n = ''linkedin_cookies.json'' then Some \<lparr>data = bundle, perm = 420\<rparr>
                    else None),
     umask = 18, room = None, locked = (\<lambda>n. False)\<rparr>"


definition full_disk :: fs where
  "full_disk = (stored_disk ''enc:fresh'')\<lparr>room := Some 2\<rparr>"

definition private_disk :: fs where
  "private_disk = fresh_disk\<lparr>umask := 63\<rparr>"



text \<open>A stored bundle of 86401 seconds ago that the process may not remove.\<close>

definition sticky_disk :: fs where
  "sticky_disk = (stored_disk ''enc:stale'')\<lparr>locked := (\<lambda>n. n = ''linkedin_cookies.json'')\<rparr>"

section \<open>Unfolding the model\<close>

lemmas demo_defs = demo_bundle_def demo_libs_def demo_page_def demo_env_def fresh_disk_def
  demo_post_def

lemmas vault_defs = aenter_def load_cookies_def load_try_def save_cookies_def obtain_key_def
  setup_sessions_directory_def path_exists_def read_bytes_def open_wb_def write_bytes_def
  unlink_def key_file_def cookie_file_def cookie_data_of_def py_int_def subscript_def
  as_number_def add_cookies_def save_and_return_def age_def float_overflow_def

section \<open>The merge of new posts and the scroll loop\<close>

lemma py_in_iff: "py_in sub s \<longleftrightarrow> sublist sub s"
  by (induction s) (auto simp: sublist_Cons_right)

lemma merge_new_append: "merge_new posts (xs @ ys) = merge_new (merge_new posts xs) ys"
  by (induction xs arbitrary: posts) auto

lemma merge_new_prefix: "prefix posts (merge_new posts xs)"
proof (induction xs arbitrary: posts)
  case Nil show ?case by simp
next
  case (Cons p xs)
  have "prefix posts (if seen posts p then posts else posts @ [p])" by simp
  also have "prefix \<dots> (merge_new (if seen posts p then posts else posts @ [p]) xs)" by (rule Cons.IH)
  finally show ?case by simp
qed

lemma seen_iff: "seen posts p \<longleftrightarrow> urn p \<in> urn ` set posts"
  unfolding seen_def list_ex_iff image_iff by metis

lemma merge_new_distinct: "distinct (map urn posts) \<Longrightarrow> distinct (map urn (merge_new posts xs))"
  by (induction xs arbitrary: posts) (auto simp: seen_iff)

lemma merge_new_first_seen:
  "merge_new posts xs = posts @ first_seen (filter (\<lambda>q. urn q \<notin> urn ` set posts) xs)"
proof (induction xs arbitrary: posts)
  case Nil show ?case by simp
next
  case (Cons p xs)
  show ?case
  proof (cases "seen posts p")
    case True
    then show ?thesis using Cons.IH [of posts] by (simp add: seen_iff)
  next
    case False
    have eq: "filter (\<lambda>q. urn q \<notin> urn ` set (posts @ [p])) xs
            = filter (\<lambda>q. urn q \<noteq> urn p) (filter (\<lambda>q. urn q \<notin> urn ` set posts) xs)"
      by (induction xs) auto
    from False have "merge_new posts (p # xs) = merge_new (posts @ [p]) xs" by simp
    also have "\<dots> = (posts @ [p]) @ first_seen (filter (\<lambda>q. urn q \<notin> urn ` set (posts @ [p])) xs)"
      by (rule Cons.IH)
    also have "\<dots> = posts @ first_seen (filter (\<lambda>q. urn q \<notin> urn ` set posts) (p # xs))"
      using False unfolding eq by (simp add: seen_iff)
    finally show ?thesis .
  qed
qed

lemma merge_new_Nil: "merge_new [] xs = first_seen xs"
  by (simp add: merge_new_first_seen)

lemma first_seen_distinct: "distinct (map urn (first_seen xs))"
  using merge_new_distinct [of "[]" xs] by (simp add: merge_new_Nil)

lemma first_seen_prefix: "prefix (first_seen xs) (first_seen (xs @ ys))"
proof -
  have "first_seen (xs @ ys) = merge_new (first_seen xs) ys"
    unfolding merge_new_Nil [symmetric] by (rule merge_new_append)
  then show ?thesis by (simp add: merge_new_prefix)
qed

lemma first_seen_take_prefix: "prefix (first_seen (concat (take k vs))) (first_seen (concat vs))"
proof -
  have "concat vs = concat (take k vs) @ concat (drop k vs)"
    unfolding concat_append [symmetric] by simp
  then show ?thesis using first_seen_prefix by metis
qed

lemma slice_to_prefix: "prefix (slice_to xs c) xs"
  by (simp add: slice_to_def take_is_prefix)

lemma slice_to_length: "0 \<le> c \<Longrightarrow> int (length (slice_to xs c)) \<le> c"
  by (simp add: slice_to_def)


lemma prefix_distinct_map: "prefix xs ys \<Longrightarrow> distinct (map f ys) \<Longrightarrow> distinct (map f xs)"
  by (auto simp: prefix_def)

lemma collected_ok:
  assumes "ps = slice_to (first_seen (concat (take k vs))) count"
  shows "distinct (map urn ps)" and "prefix ps (first_seen (concat vs))"
    and "0 \<le> count \<Longrightarrow> int (length ps) \<le> count"
proof -
  have p: "prefix ps (first_seen (concat (take k vs)))"
    unfolding assms by (rule slice_to_prefix)
  from p show "distinct (map urn ps)"
    by (rule prefix_distinct_map) (rule first_seen_distinct)
  from p first_seen_take_prefix [of k vs] show "prefix ps (first_seen (concat vs))"
    by (rule prefix_order.trans)
  show "0 \<le> count \<Longrightarrow> int (length ps) \<le> count"
    unfolding assms by (rule slice_to_length)
qed

lemma evaluate_posts_take: "evaluate_posts pg = concat (take 1 (views pg))"
  by (cases "views pg") (simp_all add: evaluate_posts_def)

lemma take_Suc_drop: "take 1 vs @ take k (drop 1 vs) = take (Suc k) vs"
  using take_add [of 1 k vs] by simp

lemma merge_new_step:
  "merge_new (merge_new posts (evaluate_posts pg)) (concat (take k (views (scroll_by pg))))
   = merge_new posts (concat (take (Suc k) (views pg)))"
proof -
  have "concat (take (Suc k) (views pg))
        = concat (take 1 (views pg)) @ concat (take k (drop 1 (views pg)))"
    unfolding concat_append [symmetric] take_Suc_drop ..
  then show ?thesis
    by (simp add: evaluate_posts_take scroll_by_def merge_new_append)
qed

text \<open>The loop after any number of rounds: the posts of the views it has read, merged;
  one evaluation per round; the page differs from the first one in its views only.\<close>

lemma scroll_loop_shape:
  "\<exists>k pg' evs'. k \<le> n \<and>
     scroll_loop sc n count (posts, pg, evs) = (merge_new posts (concat (take k (views pg))), pg', evs') \<and>
     evaluations evs' = evaluations evs + k \<and> fresh_cookies pg' = fresh_cookies pg"
proof (induction n arbitrary: posts pg evs)
  case 0
  show ?case by (rule exI [of _ 0]) simp
next
  case (Suc n)
  let ?posts = "merge_new posts (evaluate_posts pg)"
  let ?evs = "evs @ [Evaluate sc] @ [ScrollBy, WaitForTimeout 1500]"
  show ?case
  proof (cases "count \<le> int (length ?posts)")
    case True
    then show ?thesis
      by (intro exI [of _ 1]) (simp add: evaluate_posts_take evaluations_def)
  next
    case False
    from Suc.IH [of ?posts "scroll_by pg" ?evs]
    obtain k pg' evs' where k: "k \<le> n"
      and run: "scroll_loop sc n count (?posts, scroll_by pg, ?evs)
                 = (merge_new ?posts (concat (take k (views (scroll_by pg)))), pg', evs')"
      and ev: "evaluations evs' = evaluations ?evs + k"
      and fc: "fresh_cookies pg' = fresh_cookies (scroll_by pg)"
      by blast
    have "merge_new ?posts (concat (take k (views (scroll_by pg))))
          = merge_new posts (concat (take (Suc k) (views pg)))"
      by (rule merge_new_step)
    with False k run ev fc show ?thesis
      by (intro exI [of _ "Suc k"]) (simp add: evaluations_def scroll_by_def)
  qed
qed


section \<open>The operations as runs\<close>

lemma save_and_return_fst:
  "fst (save_and_return E pg jar s evs e) = Returns e' \<Longrightarrow> e' = e"
  by (auto simp: save_and_return_def split: prod.splits outcome.splits)

lemma save_and_return_events [simp]:
  "snd (snd (save_and_return E pg jar s evs e)) = evs @ [ContextCookies]"
  by (auto simp: save_and_return_def split: prod.splits outcome.splits)

lemma save_and_return_ok:
  "fst (save_cookies (lib E) (saved_at E) (jar @ fresh_cookies pg) ''linkedin'' s) = Returns () \<Longrightarrow>
   fst (save_and_return E pg jar s evs e) = Returns e"
  by (auto simp: save_and_return_def split: prod.splits outcome.splits)

lemma save_and_return_cong:
  "fresh_cookies pg' = fresh_cookies pg \<Longrightarrow>
   save_and_return E pg' jar s evs e = save_and_return E pg jar s evs e"
  by (simp add: save_and_return_def)

lemma evaluations_simps [simp]:
  "evaluations [] = 0"
  "evaluations (evs @ evs') = evaluations evs + evaluations evs'"
  "evaluations (Evaluate sc # evs) = Suc (evaluations evs)"
  "evaluations (Goto u # evs) = evaluations evs"
  "evaluations (WaitForTimeout n # evs) = evaluations evs"
  "evaluations (ScrollBy # evs) = evaluations evs"
  "evaluations (ContextCookies # evs) = evaluations evs"
  "evaluations (WaitForSelector # evs) = evaluations evs"
  "evaluations (LocatorCount # evs) = evaluations evs"
  "evaluations (Click # evs) = evaluations evs"
  by (simp_all add: evaluations_def)

text \<open>The two scrolling operations as one run of the loop followed by the save.\<close>

lemma do_browse_feed_run:
  assumes "\<not> py_in ''login'' (url (site E feed_url))"
  shows "\<exists>k evs. k \<le> attempts count \<and> evaluations evs = k \<and>
     do_browse_feed E count s =
       save_and_return E (site E feed_url) (fst (aenter E s)) (snd (aenter E s)) evs
         (Posts (slice_to (first_seen (concat (take k (views (site E feed_url))))) count)
                (length (first_seen (concat (take k (views (site E feed_url)))))))"
proof -
  let ?pg = "site E feed_url"
  from scroll_loop_shape [of "attempts count" FeedScript count "[]" ?pg "[Goto feed_url] @ [WaitForTimeout 5000]"]
  obtain k pg' evs' where k: "k \<le> attempts count"
    and run: "scroll_loop FeedScript (attempts count) count ([], ?pg, [Goto feed_url] @ [WaitForTimeout 5000])
               = (merge_new [] (concat (take k (views ?pg))), pg', evs')"
    and ev: "evaluations evs' = evaluations ([Goto feed_url] @ [WaitForTimeout 5000]) + k"
    and fc: "fresh_cookies pg' = fresh_cookies ?pg"
    by blast
  from assms run have "do_browse_feed E count s =
       save_and_return E pg' (fst (aenter E s)) (snd (aenter E s)) evs'
         (Posts (slice_to (first_seen (concat (take k (views ?pg)))) count)
                (length (first_seen (concat (take k (views ?pg))))))"
    by (simp add: do_browse_feed_def merge_new_Nil Let_def split: prod.splits)
  with k ev show ?thesis
    unfolding save_and_return_cong [OF fc] by (intro exI [of _ k] exI [of _ evs']) simp
qed

lemma do_browse_feed_login:
  assumes "py_in ''login'' (url (site E feed_url))"
  shows "do_browse_feed E count s = (Returns (Error ''Not logged in''), snd (aenter E s), [Goto feed_url])"
  using assms by (simp add: do_browse_feed_def Let_def split: prod.splits)


lemma do_search_posts_run:
  assumes "\<not> py_in ''login'' (url (site E (content_url E query)))"
  shows "\<exists>k evs. k \<le> attempts count \<and> evaluations evs = k \<and>
     do_search_posts E query count s =
       save_and_return E (site E (content_url E query)) (fst (aenter E s)) (snd (aenter E s)) evs
         (FoundPosts (slice_to (first_seen (concat (take k (views (site E (content_url E query)))))) count)
                (length (first_seen (concat (take k (views (site E (content_url E query))))))) query)"
proof -
  let ?u = "content_url E query"
  let ?pg = "site E ?u"
  from scroll_loop_shape [of "attempts count" SearchPostsScript count "[]" ?pg "[Goto ?u] @ [WaitForTimeout 5000]"]
  obtain k pg' evs' where k: "k \<le> attempts count"
    and run: "scroll_loop SearchPostsScript (attempts count) count ([], ?pg, [Goto ?u] @ [WaitForTimeout 5000])
               = (merge_new [] (concat (take k (views ?pg))), pg', evs')"
    and ev: "evaluations evs' = evaluations ([Goto ?u] @ [WaitForTimeout 5000]) + k"
    and fc: "fresh_cookies pg' = fresh_cookies ?pg"
    by blast
  from assms run have "do_search_posts E query count s =
       save_and_return E pg' (fst (aenter E s)) (snd (aenter E s)) evs'
         (FoundPosts (slice_to (first_seen (concat (take k (views ?pg)))) count)
                (length (first_seen (concat (take k (views ?pg))))) query)"
    by (simp add: do_search_posts_def merge_new_Nil Let_def split: prod.splits)
  with k ev show ?thesis
    unfolding save_and_return_cong [OF fc] by (intro exI [of _ k] exI [of _ evs']) simp
qed

lemma do_search_posts_login:
  assumes "py_in ''login'' (url (site E (content_url E query)))"
  shows "do_search_posts E query count s =
           (Returns (Error ''Not logged in''), snd (aenter E s), [Goto (content_url E query)])"
  using assms by (simp add: do_search_posts_def Let_def split: prod.splits)



lemma scenario_loop:
  assumes "views pg = [[a, b, c], [b, c, d, e], [d, e, f, g]]"
    and "distinct (map urn [a, b, c, d, e, f, g])"
  shows "scroll_loop sc (Suc (Suc n)) 5 ([], pg, evs)
         = ([a, b, c, d, e], scroll_by pg, evs @ [Evaluate sc, ScrollBy, WaitForTimeout 1500, Evaluate sc])"
  using assms by (simp add: seen_def evaluate_posts_def scroll_by_def)

lemma attempts_five: "attempts 5 = Suc (Suc 5)"
  by (simp add: attempts_def)

lemma length_five: "length [a, b, c, d, e] = 5"
  by simp

lemma scenario_feed:
  assumes "views (site E feed_url) = [[a, b, c], [b, c, d, e], [d, e, f, g]]"
    and "distinct (map urn [a, b, c, d, e, f, g])"
    and "\<not> py_in ''login'' (url (site E feed_url))"
  shows "do_browse_feed E 5 s =
     save_and_return E (scroll_by (site E feed_url)) (fst (aenter E s)) (snd (aenter E s))
       [Goto feed_url, WaitForTimeout 5000, Evaluate FeedScript, ScrollBy, WaitForTimeout 1500,
        Evaluate FeedScript]
       (Posts [a, b, c, d, e] 5)"
proof -
  have "slice_to [a, b, c, d, e] 5 = [a, b, c, d, e]"
    by (simp add: slice_to_def)
  with assms(3) show ?thesis
    unfolding do_browse_feed_def attempts_five
    by (simp only: scenario_loop [OF assms(1,2)] length_five Let_def prod.case fst_conv snd_conv
          if_False append.simps split: prod.splits) simp
qed

lemma do_search_profiles_login:
  assumes "py_in ''login'' (url (site E (people_url E query)))"
  shows "do_search_profiles E query count s =
           (Returns (Error ''Not logged in''), snd (aenter E s), [Goto (people_url E query)])"
  using assms by (simp add: do_search_profiles_def Let_def split: prod.splits)

lemma do_search_profiles_run:
  assumes "\<not> py_in ''login'' (url (site E (people_url E query)))"
  shows "do_search_profiles E query count s =
     save_and_return E (site E (people_url E query)) (fst (aenter E s)) (snd (aenter E s))
       [Goto (people_url E query), WaitForTimeout 5000, Evaluate (ProfilesScript count)]
       (FoundProfiles (people (site E (people_url E query)) count)
          (length (people (site E (people_url E query)) count)) query)"
  using assms by (simp add: do_search_profiles_def Let_def split: prod.splits)

lemma do_view_profile_login:
  assumes "py_in ''linkedin.com/in/'' profile_url" "py_in ''login'' (url (site E profile_url))"
  shows "do_view_profile E profile_url s =
           (Returns (Error ''Not logged in''), snd (aenter E s), [Goto profile_url])"
  using assms by (simp add: do_view_profile_def Let_def split: prod.splits)

lemma do_view_profile_run:
  assumes "py_in ''linkedin.com/in/'' profile_url" "\<not> py_in ''login'' (url (site E profile_url))"
  shows "do_view_profile E profile_url s =
     save_and_return E (site E profile_url) (fst (aenter E s)) (snd (aenter E s))
       [Goto profile_url, WaitForSelector, WaitForTimeout 3000, Evaluate ProfileScript]
       (ProfileView (profile (site E profile_url)) profile_url)"
  using assms by (simp add: do_view_profile_def Let_def split: prod.splits)

lemma do_interact_post_login:
  assumes "py_in ''linkedin.com/posts/'' post_url \<or> py_in ''linkedin.com/feed/update/'' post_url"
    "py_in ''login'' (url (site E post_url))"
  shows "do_interact_post E post_url action comment s =
           (Returns (Error ''Not logged in''), snd (aenter E s), [Goto post_url])"
  using assms by (auto simp: do_interact_post_def Let_def split: prod.splits)

lemma do_interact_post_run:
  assumes "py_in ''linkedin.com/posts/'' post_url \<or> py_in ''linkedin.com/feed/update/'' post_url"
    "\<not> py_in ''login'' (url (site E post_url))"
  shows "do_interact_post E post_url action comment s =
     save_and_return E (site E post_url) (fst (aenter E s)) (snd (aenter E s))
       ([Goto post_url, WaitForTimeout 5000] @ snd (open_comments (site E post_url)) @ [Evaluate PostScript])
       (PostView action
          (fst (post_data (site E post_url) (fst (open_comments (site E post_url)))))
          (snd (post_data (site E post_url) (fst (open_comments (site E post_url)))))
          (length (snd (post_data (site E post_url) (fst (open_comments (site E post_url)))))))"
  using assms by (auto simp: do_interact_post_def Let_def split: prod.splits)

lemma do_interact_post_invalid:
  assumes "\<not> (py_in ''linkedin.com/posts/'' post_url \<or> py_in ''linkedin.com/feed/update/'' post_url)"
  shows "do_interact_post E post_url action comment s =
           (Returns (Error ''Invalid LinkedIn post URL''), s, [])"
  using assms by (simp add: do_interact_post_def)

lemma short_circuitedI:
  "r = (Returns (Error ''Not logged in''), snd (aenter E s), [Goto u]) \<Longrightarrow> short_circuited E s r"
  by (simp add: short_circuited_def)

lemma save_and_return_not_error:
  "status e = ''success'' \<Longrightarrow> fst (save_and_return E pg jar s evs e) \<noteq> Returns (Error m)"
  by (auto dest: save_and_return_fst)

lemma save_completes_returns:
  "save_completes E pg s \<Longrightarrow>
   fst (save_and_return E pg (fst (aenter E s)) (snd (aenter E s)) evs e) = Returns e"
  by (simp add: save_completes_def save_and_return_ok split: prod.splits)



section \<open>The collection result of the feed and of the post search\<close>

text \<open>
  C1, as stated, fails for a negative count. With \<^verbatim>\<open>count = -1\<close> the loop runs once,
  stops at once (any length is at least \<open>-1\<close>), and \<^verbatim>\<open>posts[:-1]\<close> drops the last
  post only: of the three posts of the first view two are returned, which is more than the
  count.
\<close>

theorem negative_count_counterexample:
  "fst (do_browse_feed short_env (- 1) fresh_disk) = Returns (Posts [demo_post ''a'', demo_post ''b''] 3)
   \<and> \<not> int (length [demo_post ''a'', demo_post ''b'']) \<le> - 1"
  by (simp add: short_env_def do_browse_feed_def demo_defs vault_defs feed_url_def attempts_def
        slice_to_def seen_def evaluate_posts_def)

text \<open>
  C1, amended. For every count and every sequence of views, the posts that the feed and the
  post search return have pairwise distinct urns and are an initial part of the posts of the
  views in the order of their first observation; for a count that is not negative there are
  at most count of them. In particular, with count 5 and views whose urns are
  \<open>[a,b,c]\<close>, \<open>[b,c,d,e]\<close>, \<open>[d,e,f,g]\<close> the feed returns exactly \<open>[a,b,c,d,e]\<close>,
  after two evaluations of the extraction script.
\<close>

theorem posts_distinct_first_seen_bounded:
  "(fst (do_browse_feed E count s) = Returns (Posts ps n) \<longrightarrow>
      distinct (map urn ps) \<and>
      prefix ps (first_seen (concat (views (site E feed_url)))) \<and>
      (0 \<le> count \<longrightarrow> int (length ps) \<le> count)) \<and>
   (fst (do_search_posts E query count s) = Returns (FoundPosts ps' n' q) \<longrightarrow>
      distinct (map urn ps') \<and>
      prefix ps' (first_seen (concat (views (site E (content_url E query))))) \<and>
      (0 \<le> count \<longrightarrow> int (length ps') \<le> count)) \<and>
   (views (site E feed_url) = [[a, b, c], [b, c, d, e], [d, e, f, g]] \<and>
    distinct (map urn [a, b, c, d, e, f, g]) \<and>
    fst (do_browse_feed E 5 s) = Returns (Posts ps'' n'') \<longrightarrow>
      ps'' = [a, b, c, d, e] \<and> evaluations (snd (snd (do_browse_feed E 5 s))) = 2)"
proof (intro conjI impI)
  assume r: "fst (do_browse_feed E count s) = Returns (Posts ps n)"
  have nl: "\<not> py_in ''login'' (url (site E feed_url))"
  proof
    assume "py_in ''login'' (url (site E feed_url))"
    from do_browse_feed_login [OF this, of count s] r show False by simp
  qed
  from do_browse_feed_run [OF nl, of count s]
  obtain k evs where "do_browse_feed E count s =
       save_and_return E (site E feed_url) (fst (aenter E s)) (snd (aenter E s)) evs
         (Posts (slice_to (first_seen (concat (take k (views (site E feed_url))))) count)
                (length (first_seen (concat (take k (views (site E feed_url)))))))"
    by blast
  with r have "Posts ps n = Posts (slice_to (first_seen (concat (take k (views (site E feed_url))))) count)
                (length (first_seen (concat (take k (views (site E feed_url))))))"
    by (metis save_and_return_fst)
  then have ps: "ps = slice_to (first_seen (concat (take k (views (site E feed_url))))) count"
    by simp
  from collected_ok [OF ps] show "distinct (map urn ps)"
    and "prefix ps (first_seen (concat (views (site E feed_url))))" by blast+
  show "int (length ps) \<le> count" if "0 \<le> count" using collected_ok(3) [OF ps that] .
next
  assume r: "fst (do_search_posts E query count s) = Returns (FoundPosts ps' n' q)"
  have nl: "\<not> py_in ''login'' (url (site E (content_url E query)))"
  proof
    assume "py_in ''login'' (url (site E (content_url E query)))"
    from do_search_posts_login [OF this, of count s] r show False by simp
  qed
  from do_search_posts_run [OF nl, of count s]
  obtain k evs where "do_search_posts E query count s =
       save_and_return E (site E (content_url E query)) (fst (aenter E s)) (snd (aenter E s)) evs
         (FoundPosts (slice_to (first_seen (concat (take k (views (site E (content_url E query)))))) count)
                (length (first_seen (concat (take k (views (site E (content_url E query))))))) query)"
    by blast
  with r have "FoundPosts ps' n' q =
       FoundPosts (slice_to (first_seen (concat (take k (views (site E (content_url E query)))))) count)
                (length (first_seen (concat (take k (views (site E (content_url E query))))))) query"
    by (metis save_and_return_fst)
  then have ps: "ps' = slice_to (first_seen (concat (take k (views (site E (content_url E query)))))) count"
    by simp
  from collected_ok [OF ps] show "distinct (map urn ps')"
    and "prefix ps' (first_seen (concat (views (site E (content_url E query)))))" by blast+
  show "int (length ps') \<le> count" if "0 \<le> count" using collected_ok(3) [OF ps that] .
next
  assume h: "views (site E feed_url) = [[a, b, c], [b, c, d, e], [d, e, f, g]] \<and>
    distinct (map urn [a, b, c, d, e, f, g]) \<and>
    fst (do_browse_feed E 5 s) = Returns (Posts ps'' n'')"
  have nl: "\<not> py_in ''login'' (url (site E feed_url))"
  proof
    assume "py_in ''login'' (url (site E feed_url))"
    from do_browse_feed_login [OF this, of 5 s] h show False by simp
  qed
  from h have v: "views (site E feed_url) = [[a, b, c], [b, c, d, e], [d, e, f, g]]"
    and d: "distinct (map urn [a, b, c, d, e, f, g])" by blast+
  have run: "do_browse_feed E 5 s =
     save_and_return E (scroll_by (site E feed_url)) (fst (aenter E s)) (snd (aenter E s))
       [Goto feed_url, WaitForTimeout 5000, Evaluate FeedScript, ScrollBy, WaitForTimeout 1500,
        Evaluate FeedScript]
       (Posts [a, b, c, d, e] 5)"
    by (rule scenario_feed [OF v d nl])
  from h have "Posts ps'' n'' = Posts [a, b, c, d, e] 5"
    unfolding run by (metis save_and_return_fst)
  then show "ps'' = [a, b, c, d, e]" by simp
  show "evaluations (snd (snd (do_browse_feed E 5 s))) = 2"
    unfolding run by simp
qed

theorem posts_distinct_first_seen_bounded_witness:
  "fst (do_browse_feed scenario_env 5 fresh_disk) = Returns (Posts five_posts 5) \<and>
   fst (do_search_posts scenario_env ''ai'' 5 fresh_disk) = Returns (FoundPosts five_posts 5 ''ai'') \<and>
   views (site scenario_env feed_url) = scenario_views \<and>
   distinct (map urn five_posts) \<and>
   prefix five_posts (first_seen (concat scenario_views)) \<and>
   int (length five_posts) \<le> 5 \<and>
   evaluations (snd (snd (do_browse_feed scenario_env 5 fresh_disk))) = 2"
proof -
  have feed: "fst (do_browse_feed scenario_env 5 fresh_disk) = Returns (Posts five_posts 5)"
    by code_simp
  have search: "fst (do_search_posts scenario_env ''ai'' 5 fresh_disk)
       = Returns (FoundPosts five_posts 5 ''ai'')"
    by code_simp
  have v: "views (site scenario_env feed_url) = scenario_views"
    and v': "views (site scenario_env (content_url scenario_env ''ai'')) = scenario_views"
    by (simp_all add: scenario_env_def demo_env_def demo_page_def)
  have d: "distinct (map urn (five_posts @ [demo_post ''f'', demo_post ''g'']))"
    by (simp add: five_posts_def demo_post_def)
  from posts_distinct_first_seen_bounded [of scenario_env 5 fresh_disk five_posts 5 "''ai''"
      five_posts 5 "''ai''" "demo_post ''a''" "demo_post ''b''" "demo_post ''c''" "demo_post ''d''"
      "demo_post ''e''" "demo_post ''f''" "demo_post ''g''" five_posts 5]
    feed search v v' d
  show ?thesis by (simp add: scenario_views_def five_posts_def)
qed

section \<open>The attempt budget\<close>





section \<open>Loading the stored cookies\<close>

text \<open>The two tests before the \<^verbatim>\<open>try\<close> return for names of at most 255 bytes, and
  then the load raises nothing: each listed failure gives \<^verbatim>\<open>False\<close> with the context and
  the directory as they were.\<close>

lemma path_exists_key_file: "path_exists key_file s = Returns (entries s key_file \<noteq> None)"
  by (simp add: path_exists_def key_file_def split: option.splits)

lemma path_exists_short:
  "length name \<le> 255 \<Longrightarrow> path_exists name s = Returns (entries s name \<noteq> None)"
  by (simp add: path_exists_def split: option.splits)

lemma load_cookies_short_returns:
  "length (cookie_file platform) \<le> 255 \<Longrightarrow> fst (load_cookies L now platform jar s) \<noteq> Raises x"
  by (auto simp: load_cookies_def path_exists_short path_exists_key_file
        split: prod.splits outcome.splits bool.splits)

lemma load_cookies_linkedin_returns:
  "\<exists>b. fst (load_cookies L now ''linkedin'' jar s) = Returns b"
proof -
  have "length (cookie_file ''linkedin'') \<le> 255" by (simp add: cookie_file_def)
  from load_cookies_short_returns [OF this, of L now jar s]
  show ?thesis by (cases "fst (load_cookies L now ''linkedin'' jar s)") auto
qed

lemma load_cookies_absent:
  assumes "length (cookie_file platform) \<le> 255"
    and "entries s (cookie_file platform) = None \<or> entries s key_file = None \<or>
    (\<exists>k c. entries s key_file = Some k \<and> entries s (cookie_file platform) = Some c \<and>
       (\<not> key_ok L (data k) \<or> decrypt L (data k) (data c) = None \<or>
        (\<exists>plain. decrypt L (data k) (data c) = Some plain \<and> loads L plain = None)))"
  shows "load_cookies L now platform jar s = (Returns False, jar, s)"
  using assms
  by (auto simp: load_cookies_def load_try_def path_exists_short path_exists_key_file
        read_bytes_def split: bool.splits)


lemma load_cookies_overflow:
  assumes "entries s key_file = Some k" and "entries s (cookie_file platform) = Some c"
    and "key_ok L (data k)" and "decrypt L (data k) (data c) = Some plain"
    and "loads L plain = Some (JDict kvs)"
    and "map_of kvs ''timestamp'' = Some (JInt issued_at)"
    and "float_overflow issued_at"
  shows "load_cookies L now platform jar s = (Returns False, jar, s)"
  using assms
  by (simp add: load_cookies_def load_try_def path_exists_def read_bytes_def subscript_def
        as_number_def)

lemma load_cookies_expired:
  assumes "entries s key_file = Some k" and "entries s (cookie_file platform) = Some c"
    and "key_ok L (data k)" and "decrypt L (data k) (data c) = Some plain"
    and "loads L plain = Some (JDict kvs)"
    and "map_of kvs ''timestamp'' = Some (JInt issued_at)"
    and "expired L now issued_at"
  shows "load_cookies L now platform jar s
             = (Returns False, jar,
                if locked s (cookie_file platform) then s
                else s\<lparr>entries := (entries s)(cookie_file platform := None)\<rparr>)"
  using assms
  by (simp add: load_cookies_def load_try_def path_exists_def read_bytes_def subscript_def
        as_number_def unlink_def expired_def)

lemma load_cookies_current:
  assumes "entries s key_file = Some k" and "entries s (cookie_file platform) = Some c"
    and "key_ok L (data k)" and "decrypt L (data k) (data c) = Some plain"
    and "loads L plain = Some (JDict kvs)"
    and "map_of kvs ''timestamp'' = Some (JInt issued_at)"
    and "\<not> expired L now issued_at"
  shows "snd (snd (load_cookies L now platform jar s)) = s"
    and "\<not> float_overflow issued_at \<Longrightarrow>
         map_of kvs ''cookies'' = Some (JList cs) \<Longrightarrow> list_all (cookie_ok L) cs \<Longrightarrow>
         load_cookies L now platform jar s = (Returns True, jar @ cs, s)"
  using assms
  by (auto simp: load_cookies_def load_try_def path_exists_def read_bytes_def subscript_def
        as_number_def unlink_def add_cookies_def expired_def
        split: option.splits outcome.splits json.splits)

lemma expired_exact:
  assumes "\<not> float_overflow issued_at"
    and "nearest_float L (of_int issued_at) = of_int issued_at"
    and "nearest_float L (now - of_int issued_at) = now - of_int issued_at"
  shows "expired L now issued_at \<longleftrightarrow> now - of_int issued_at > 86400"
  using assms by (simp add: expired_def age_def)

text \<open>
  C4, as stated, fails in both directions. A bundle issued 86401 seconds ago that the process
  may not remove is found expired, the unlink raises, the handler turns it into
  \<^verbatim>\<open>False\<close>, and the bundle file is still there. A bundle whose timestamp is
  \<open>10 ^ 400\<close> is not older than 24 hours, yet the subtraction raises OverflowError and the
  load returns \<^verbatim>\<open>False\<close> with nothing applied.
\<close>

theorem load_cookies_ttl_counterexample:
  "decrypt demo_libs ''K'' ''enc:stale'' = Some ''stale'' \<and>
   loads demo_libs ''stale'' = Some (demo_bundle 599) \<and>
   (87000::real) - of_int 599 > 86400 \<and>
   load_cookies demo_libs 87000 ''linkedin'' [] sticky_disk = (Returns False, [], sticky_disk) \<and>
   entries sticky_disk (cookie_file ''linkedin'') = Some \<lparr>data = ''enc:stale'', perm = 420\<rparr> \<and>
   decrypt demo_libs ''K'' ''enc:huge'' = Some ''huge'' \<and>
   loads demo_libs ''huge'' = Some (demo_bundle (10 ^ 400)) \<and>
   \<not> (87000::real) - of_int (10 ^ 400) > 86400 \<and>
   load_cookies demo_libs 87000 ''linkedin'' [] (stored_disk ''enc:huge'')
     = (Returns False, [], stored_disk ''enc:huge'')"
  by (simp add: sticky_disk_def stored_disk_def demo_defs vault_defs)

text \<open>
  C4, amended. For a stored bundle (key and bundle files present, the bundle decrypting to a
  dict with an integer timestamp), the timestamp is expired when it converts to a float and
  the age that the float subtraction gives exceeds 86400. For an expired timestamp
  \<^verbatim>\<open>load_cookies\<close> returns \<^verbatim>\<open>False\<close> and removes the bundle file, unless the file
  cannot be removed: then it stays. So the load returns \<^verbatim>\<open>False\<close> with the bundle file
  gone exactly when the timestamp is expired and the file can be removed. For a timestamp too
  large for a float the load returns \<^verbatim>\<open>False\<close> and changes nothing. Otherwise the
  directory is unchanged and, for a list of cookies that the context accepts, it returns
  \<^verbatim>\<open>True\<close> with the cookies added to the context. Where the conversion and the
  subtraction are exact, expired means \<open>now - issued_at > 86400\<close>: a bundle issued at
  \<open>now - 86400 - 1\<close> that can be removed is deleted, one issued at \<open>now - 86400 + 1\<close> is
  applied.
\<close>

theorem load_cookies_ttl:
  assumes "entries s key_file = Some k" and "entries s (cookie_file platform) = Some c"
    and "key_ok L (data k)" and "decrypt L (data k) (data c) = Some plain"
    and "loads L plain = Some (JDict kvs)"
    and "map_of kvs ''timestamp'' = Some (JInt issued_at)"
  shows "(expired L now issued_at \<longrightarrow>
           load_cookies L now platform jar s
             = (Returns False, jar,
                if locked s (cookie_file platform) then s
                else s\<lparr>entries := (entries s)(cookie_file platform := None)\<rparr>)) \<and>
         ((fst (load_cookies L now platform jar s) = Returns False \<and>
           entries (snd (snd (load_cookies L now platform jar s))) (cookie_file platform) = None)
          \<longleftrightarrow> expired L now issued_at \<and> \<not> locked s (cookie_file platform)) \<and>
         (float_overflow issued_at \<longrightarrow>
           load_cookies L now platform jar s = (Returns False, jar, s)) \<and>
         (\<not> expired L now issued_at \<longrightarrow> snd (snd (load_cookies L now platform jar s)) = s) \<and>
         (\<not> expired L now issued_at \<and> \<not> float_overflow issued_at \<and>
          map_of kvs ''cookies'' = Some (JList cs) \<and> list_all (cookie_ok L) cs \<longrightarrow>
           load_cookies L now platform jar s = (Returns True, jar @ cs, s)) \<and>
         (\<not> float_overflow issued_at \<and>
          nearest_float L (of_int issued_at) = of_int issued_at \<and>
          nearest_float L (now - of_int issued_at) = now - of_int issued_at \<longrightarrow>
            (expired L now issued_at \<longleftrightarrow> now - of_int issued_at > 86400) \<and>
            (of_int issued_at = now - 86400 - 1 \<and> \<not> locked s (cookie_file platform) \<longrightarrow>
               load_cookies L now platform jar s
                 = (Returns False, jar, s\<lparr>entries := (entries s)(cookie_file platform := None)\<rparr>)) \<and>
            (of_int issued_at = now - 86400 + 1 \<and>
             map_of kvs ''cookies'' = Some (JList cs) \<and> list_all (cookie_ok L) cs \<longrightarrow>
               load_cookies L now platform jar s = (Returns True, jar @ cs, s)))"
proof -
  note over = load_cookies_overflow [OF assms, where now = now and jar = jar]
  note old = load_cookies_expired [OF assms, where now = now and jar = jar]
  note new1 = load_cookies_current(1) [OF assms, where now = now and jar = jar]
  note new2 = load_cookies_current(2) [OF assms, where now = now and jar = jar and cs = cs]
  have iff: "(fst (load_cookies L now platform jar s) = Returns False \<and>
           entries (snd (snd (load_cookies L now platform jar s))) (cookie_file platform) = None)
          \<longleftrightarrow> expired L now issued_at \<and> \<not> locked s (cookie_file platform)"
  proof (cases "expired L now issued_at")
    case True
    with old assms(2) show ?thesis by simp
  next
    case False
    with new1 assms(2) show ?thesis by simp
  qed
  have exact: "expired L now issued_at \<longleftrightarrow> now - of_int issued_at > 86400"
    if "\<not> float_overflow issued_at \<and>
          nearest_float L (of_int issued_at) = of_int issued_at \<and>
          nearest_float L (now - of_int issued_at) = now - of_int issued_at"
    using that expired_exact by blast
  have a: "of_int issued_at = now - 86400 - 1 \<Longrightarrow> now - of_int issued_at > 86400" by simp
  have b: "of_int issued_at = now - 86400 + 1 \<Longrightarrow> \<not> now - of_int issued_at > 86400" by simp
  show ?thesis
  proof (intro conjI impI)
    show "(fst (load_cookies L now platform jar s) = Returns False \<and>
           entries (snd (snd (load_cookies L now platform jar s))) (cookie_file platform) = None)
          = (expired L now issued_at \<and> \<not> locked s (cookie_file platform))"
      by (rule iff)
    show "load_cookies L now platform jar s = (Returns False, jar, s)" if "float_overflow issued_at"
      using over that .
    show "snd (snd (load_cookies L now platform jar s)) = s" if "\<not> expired L now issued_at"
      using new1 that .
    show "load_cookies L now platform jar s
             = (Returns False, jar,
                if locked s (cookie_file platform) then s
                else s\<lparr>entries := (entries s)(cookie_file platform := None)\<rparr>)"
      if "expired L now issued_at"
      using old that .
    show "load_cookies L now platform jar s = (Returns True, jar @ cs, s)"
      if "\<not> expired L now issued_at \<and> \<not> float_overflow issued_at \<and>
          map_of kvs ''cookies'' = Some (JList cs) \<and> list_all (cookie_ok L) cs"
      using new2 that by blast
  next
    assume h: "\<not> float_overflow issued_at \<and>
          nearest_float L (of_int issued_at) = of_int issued_at \<and>
          nearest_float L (now - of_int issued_at) = now - of_int issued_at"
    show "expired L now issued_at = (now - of_int issued_at > 86400)"
      using exact [OF h] .
    show "load_cookies L now platform jar s
                 = (Returns False, jar, s\<lparr>entries := (entries s)(cookie_file platform := None)\<rparr>)"
      if "of_int issued_at = now - 86400 - 1 \<and> \<not> locked s (cookie_file platform)"
      using old exact [OF h] a that by simp
    show "load_cookies L now platform jar s = (Returns True, jar @ cs, s)"
      if "of_int issued_at = now - 86400 + 1 \<and>
             map_of kvs ''cookies'' = Some (JList cs) \<and> list_all (cookie_ok L) cs"
      using new2 exact [OF h] b h that by blast
  qed
qed

theorem load_cookies_ttl_witness:
  "load_cookies demo_libs 87000 ''linkedin'' [] (stored_disk ''enc:stale'')
     = (Returns False, [],
        (stored_disk ''enc:stale'')\<lparr>entries := (entries (stored_disk ''enc:stale''))(cookie_file ''linkedin'' := None)\<rparr>) \<and>
   of_int 599 = (87000::real) - 86400 - 1 \<and>
   load_cookies demo_libs 87000 ''linkedin'' [] (stored_disk ''enc:fresh'')
     = (Returns True, [JStr ''li_at''], stored_disk ''enc:fresh'') \<and>
   of_int 601 = (87000::real) - 86400 + 1"
proof -
  have old: "of_int 599 = (87000::real) - 86400 - 1" and new: "of_int 601 = (87000::real) - 86400 + 1"
    by simp_all
  have 1: "load_cookies demo_libs 87000 ''linkedin'' [] (stored_disk ''enc:stale'')
     = (Returns False, [],
        (stored_disk ''enc:stale'')\<lparr>entries := (entries (stored_disk ''enc:stale''))(cookie_file ''linkedin'' := None)\<rparr>)"
    using load_cookies_ttl [of "stored_disk ''enc:stale''" "\<lparr>data = ''K'', perm = 420\<rparr>" "''linkedin''"
        "\<lparr>data = ''enc:stale'', perm = 420\<rparr>" demo_libs "''stale''"
        "[(''timestamp'', JInt 599), (''cookies'', JList [JStr ''li_at''])]" 599 87000 "[]" "[JStr ''li_at'']"]
    by (simp add: stored_disk_def demo_libs_def demo_bundle_def key_file_def cookie_file_def
          float_overflow_def)
  have 2: "load_cookies demo_libs 87000 ''linkedin'' [] (stored_disk ''enc:fresh'')
     = (Returns True, [JStr ''li_at''], stored_disk ''enc:fresh'')"
    using load_cookies_ttl [of "stored_disk ''enc:fresh''" "\<lparr>data = ''K'', perm = 420\<rparr>" "''linkedin''"
        "\<lparr>data = ''enc:fresh'', perm = 420\<rparr>" demo_libs "''fresh''"
        "[(''timestamp'', JInt 601), (''cookies'', JList [JStr ''li_at''])]" 601 87000 "[]" "[JStr ''li_at'']"]
    by (simp add: stored_disk_def demo_libs_def demo_bundle_def key_file_def cookie_file_def
          float_overflow_def)
  from 1 2 old new show ?thesis by blast
qed

section \<open>The authentication check\<close>

text \<open>
  C5, as stated, fails for the login operation: after navigating to its target, the login
  page, the address contains \<open>login\<close>, and the operation goes on to wait for the manual
  login, saves the cookies and returns success.
\<close>

theorem login_operation_counterexample:
  "py_in ''login'' (url (site login_env login_url)) \<and>
   fst (do_login login_env fresh_disk) = Returns (Message ''Login successful'') \<and>
   ContextCookies \<in> set (snd (snd (do_login login_env fresh_disk))) \<and>
   path_exists ''linkedin_cookies.json'' (fst (snd (do_login login_env fresh_disk))) = Returns True"
  by (simp add: login_env_def do_login_def login_url_def fill_credentials_def demo_defs vault_defs)

text \<open>
  C5, amended. For each of the five operations other than login (feed, profile search, post
  search, profile view, post interaction; the last two on a target they accept), when the
  address after navigation contains \<open>login\<close> the operation returns the error
  \<open>Not logged in\<close> at once: no extraction script is evaluated, the cookies are not read
  for a save, and the directory is as the entry of the session left it.
\<close>

theorem login_redirect_short_circuits:
  "(py_in ''login'' (url (site E feed_url)) \<longrightarrow> short_circuited E s (do_browse_feed E count s)) \<and>
   (py_in ''login'' (url (site E (people_url E query))) \<longrightarrow>
      short_circuited E s (do_search_profiles E query count s)) \<and>
   (py_in ''login'' (url (site E (content_url E query))) \<longrightarrow>
      short_circuited E s (do_search_posts E query count s)) \<and>
   (py_in ''linkedin.com/in/'' profile_url \<and> py_in ''login'' (url (site E profile_url)) \<longrightarrow>
      short_circuited E s (do_view_profile E profile_url s)) \<and>
   ((py_in ''linkedin.com/posts/'' post_url \<or> py_in ''linkedin.com/feed/update/'' post_url) \<and>
    py_in ''login'' (url (site E post_url)) \<longrightarrow>
      short_circuited E s (do_interact_post E post_url action comment s))"
  by (intro conjI impI short_circuitedI)
    (simp_all add: do_browse_feed_login do_search_profiles_login do_search_posts_login
       do_view_profile_login do_interact_post_login)


theorem login_redirect_short_circuits_witness:
  "py_in ''login'' (url (site login_env feed_url)) \<and>
   py_in ''login'' (url (site login_env (people_url login_env ''ada''))) \<and>
   py_in ''login'' (url (site login_env (content_url login_env ''ada''))) \<and>
   py_in ''linkedin.com/in/'' namesake_url \<and> py_in ''login'' (url (site login_env namesake_url)) \<and>
   py_in ''linkedin.com/posts/'' post_address \<and> py_in ''login'' (url (site login_env post_address)) \<and>
   short_circuited login_env fresh_disk (do_browse_feed login_env 5 fresh_disk) \<and>
   short_circuited login_env fresh_disk (do_search_profiles login_env ''ada'' 5 fresh_disk) \<and>
   short_circuited login_env fresh_disk (do_search_posts login_env ''ada'' 5 fresh_disk) \<and>
   short_circuited login_env fresh_disk (do_view_profile login_env namesake_url fresh_disk) \<and>
   short_circuited login_env fresh_disk (do_interact_post login_env post_address ''like'' None fresh_disk) \<and>
   do_browse_feed login_env 5 fresh_disk
     = (Returns (Error ''Not logged in''), fresh_disk\<lparr>dir_perm := Some 493\<rparr>, [Goto feed_url])"
proof -
  have u: "url (site login_env x) = login_url" for x
    by (simp add: login_env_def demo_env_def demo_page_def)
  have l: "py_in ''login'' login_url" by (simp add: login_url_def)
  have p: "py_in ''linkedin.com/in/'' namesake_url" by (simp add: namesake_url_def)
  have q: "py_in ''linkedin.com/posts/'' post_address" by (simp add: post_address_def)
  have r: "do_browse_feed login_env 5 fresh_disk
     = (Returns (Error ''Not logged in''), fresh_disk\<lparr>dir_perm := Some 493\<rparr>, [Goto feed_url])"
    by (simp add: do_browse_feed_def u l vault_defs fresh_disk_def)
  from login_redirect_short_circuits [of login_env fresh_disk 5 "''ada''" namesake_url post_address
      "''like''" None] u l p q r
  show ?thesis by simp
qed

lemma py_in_ex: "py_in sub s \<longleftrightarrow> (\<exists>before after. s = before @ sub @ after)"
  by (simp add: py_in_iff sublist_def)

text \<open>
  C9. Each of the five operations with an authentication check returns \<open>Not logged in\<close>
  exactly when the address of the page after navigation contains \<open>login\<close> somewhere.
  So a profile whose own address contains it, \<^verbatim>\<open>linkedin.com/in/login-name\<close>, is
  answered with \<open>Not logged in\<close> and without any extraction even when the navigation
  stayed on that address.
\<close>

theorem not_logged_in_iff_url_contains_login:
  "(fst (do_browse_feed E count s) = Returns (Error ''Not logged in'') \<longleftrightarrow>
      (\<exists>before after. url (site E feed_url) = before @ ''login'' @ after)) \<and>
   (fst (do_search_profiles E query count s) = Returns (Error ''Not logged in'') \<longleftrightarrow>
      (\<exists>before after. url (site E (people_url E query)) = before @ ''login'' @ after)) \<and>
   (fst (do_search_posts E query count s) = Returns (Error ''Not logged in'') \<longleftrightarrow>
      (\<exists>before after. url (site E (content_url E query)) = before @ ''login'' @ after)) \<and>
   (py_in ''linkedin.com/in/'' profile_url \<longrightarrow>
      (fst (do_view_profile E profile_url s) = Returns (Error ''Not logged in'') \<longleftrightarrow>
        (\<exists>before after. url (site E profile_url) = before @ ''login'' @ after))) \<and>
   (py_in ''linkedin.com/posts/'' post_url \<or> py_in ''linkedin.com/feed/update/'' post_url \<longrightarrow>
      (fst (do_interact_post E post_url action comment s) = Returns (Error ''Not logged in'') \<longleftrightarrow>
        (\<exists>before after. url (site E post_url) = before @ ''login'' @ after))) \<and>
   (url (site E ''https://www.linkedin.com/in/login-name'') = ''https://www.linkedin.com/in/login-name'' \<longrightarrow>
      fst (do_view_profile E ''https://www.linkedin.com/in/login-name'' s)
        = Returns (Error ''Not logged in'') \<and>
      evaluations (snd (snd (do_view_profile E ''https://www.linkedin.com/in/login-name'' s))) = 0)"
proof (intro conjI impI)
  show "fst (do_browse_feed E count s) = Returns (Error ''Not logged in'') \<longleftrightarrow>
      (\<exists>before after. url (site E feed_url) = before @ ''login'' @ after)"
  proof (cases "py_in ''login'' (url (site E feed_url))")
    case True
    then show ?thesis using py_in_ex by (simp add: do_browse_feed_login)
  next
    case False
    from do_browse_feed_run [OF False, of count s] obtain evs e where
      "do_browse_feed E count s = save_and_return E (site E feed_url) (fst (aenter E s)) (snd (aenter E s)) evs e"
      and "status e = ''success''" by fastforce
    with False show ?thesis using py_in_ex by (simp add: save_and_return_not_error)
  qed
  show "fst (do_search_profiles E query count s) = Returns (Error ''Not logged in'') \<longleftrightarrow>
      (\<exists>before after. url (site E (people_url E query)) = before @ ''login'' @ after)"
  proof (cases "py_in ''login'' (url (site E (people_url E query)))")
    case True
    then show ?thesis using py_in_ex by (simp add: do_search_profiles_login)
  next
    case False
    then show ?thesis using py_in_ex
      by (simp add: do_search_profiles_run save_and_return_not_error)
  qed
  show "fst (do_search_posts E query count s) = Returns (Error ''Not logged in'') \<longleftrightarrow>
      (\<exists>before after. url (site E (content_url E query)) = before @ ''login'' @ after)"
  proof (cases "py_in ''login'' (url (site E (content_url E query)))")
    case True
    then show ?thesis using py_in_ex by (simp add: do_search_posts_login)
  next
    case False
    from do_search_posts_run [OF False, of count s] obtain evs e where
      "do_search_posts E query count s
         = save_and_return E (site E (content_url E query)) (fst (aenter E s)) (snd (aenter E s)) evs e"
      and "status e = ''success''" by fastforce
    with False show ?thesis using py_in_ex by (simp add: save_and_return_not_error)
  qed
next
  assume v: "py_in ''linkedin.com/in/'' profile_url"
  show "fst (do_view_profile E profile_url s) = Returns (Error ''Not logged in'') \<longleftrightarrow>
        (\<exists>before after. url (site E profile_url) = before @ ''login'' @ after)"
  proof (cases "py_in ''login'' (url (site E profile_url))")
    case True
    then show ?thesis using py_in_ex by (simp add: do_view_profile_login [OF v])
  next
    case False
    then show ?thesis using py_in_ex
      by (simp add: do_view_profile_run [OF v] save_and_return_not_error)
  qed
next
  assume v: "py_in ''linkedin.com/posts/'' post_url \<or> py_in ''linkedin.com/feed/update/'' post_url"
  show "fst (do_interact_post E post_url action comment s) = Returns (Error ''Not logged in'') \<longleftrightarrow>
        (\<exists>before after. url (site E post_url) = before @ ''login'' @ after)"
  proof (cases "py_in ''login'' (url (site E post_url))")
    case True
    then show ?thesis using py_in_ex by (simp add: do_interact_post_login [OF v])
  next
    case False
    then show ?thesis using py_in_ex
      by (simp add: do_interact_post_run [OF v] save_and_return_not_error)
  qed
next
  assume same: "url (site E ''https://www.linkedin.com/in/login-name'') = ''https://www.linkedin.com/in/login-name''"
  have v: "py_in ''linkedin.com/in/'' ''https://www.linkedin.com/in/login-name''" by simp
  have l: "py_in ''login'' (url (site E ''https://www.linkedin.com/in/login-name''))"
    unfolding same by simp
  show "fst (do_view_profile E ''https://www.linkedin.com/in/login-name'' s) = Returns (Error ''Not logged in'')"
    and "evaluations (snd (snd (do_view_profile E ''https://www.linkedin.com/in/login-name'' s))) = 0"
    by (simp_all add: do_view_profile_login [OF v l])
qed

theorem not_logged_in_iff_url_contains_login_witness:
  "py_in ''linkedin.com/in/'' namesake_url \<and>
   py_in ''linkedin.com/posts/'' post_address \<and>
   url (site namesake_env ''https://www.linkedin.com/in/login-name'') = ''https://www.linkedin.com/in/login-name'' \<and>
   url (site namesake_env namesake_url) = ''https://www.linkedin.com/in/'' @ ''login'' @ ''-name'' \<and>
   fst (do_view_profile namesake_env namesake_url fresh_disk) = Returns (Error ''Not logged in'') \<and>
   evaluations (snd (snd (do_view_profile namesake_env namesake_url fresh_disk))) = 0 \<and>
   fst (do_interact_post namesake_env post_address ''read'' None fresh_disk) = Returns (Error ''Not logged in'')"
proof -
  have p: "py_in ''linkedin.com/in/'' namesake_url" by (simp add: namesake_url_def)
  have q: "py_in ''linkedin.com/posts/'' post_address" by (simp add: post_address_def)
  have u: "url (site namesake_env x) = ''https://www.linkedin.com/in/login-name''" for x
    by (simp add: namesake_env_def namesake_url_def demo_env_def demo_page_def)
  have w: "\<exists>before after. ''https://www.linkedin.com/in/login-name'' = before @ ''login'' @ after"
    by (intro exI [of _ "''https://www.linkedin.com/in/''"] exI [of _ "''-name''"]) simp
  from not_logged_in_iff_url_contains_login [of namesake_env 5 fresh_disk "''ada''" namesake_url
      post_address "''read''" None] p q u w
  show ?thesis by (simp add: namesake_url_def)
qed

section \<open>The profile search\<close>

lemma collect_links_distinct:
  "set seen_urls = person_url ` set profiles \<Longrightarrow> distinct (map person_url profiles) \<Longrightarrow>
   distinct (map person_url (collect_links count profiles seen_urls links))"
  by (induction links arbitrary: profiles seen_urls) (auto split: option.splits)

lemma collect_links_length:
  "int (length (collect_links count profiles seen_urls links)) \<le> max count (int (length profiles))"
proof (induction links arbitrary: profiles seen_urls)
  case Nil
  show ?case by simp
next
  case (Cons link links)
  note same = Cons.IH [of profiles seen_urls]
  show ?case
  proof (cases "count \<le> int (length profiles)")
    case True
    with same show ?thesis by simp
  next
    case room: False
    show ?thesis
    proof (cases "base_url (href link) \<in> set seen_urls")
      case True
      with room same show ?thesis by simp
    next
      case new: False
      show ?thesis
      proof (cases "shown link")
        case None
        with room new same show ?thesis by simp
      next
        case (Some d)
        from room have "max count (int (length (profiles @ [\<lparr>person_url = base_url (href link), details = d\<rparr>])))
            \<le> max count (int (length profiles))"
          by simp
        with Cons.IH [of "profiles @ [\<lparr>person_url = base_url (href link), details = d\<rparr>]"
            "seen_urls @ [base_url (href link)]"]
        have "int (length (collect_links count (profiles @ [\<lparr>person_url = base_url (href link), details = d\<rparr>])
                (seen_urls @ [base_url (href link)]) links)) \<le> max count (int (length profiles))"
          by (rule order_trans)
        with room new Some show ?thesis by simp
      qed
    qed
  qed
qed

lemma people_distinct: "distinct (map person_url (people pg count))"
  by (simp add: people_def collect_links_distinct)

lemma people_length: "int (length (people pg count)) \<le> max 0 count"
  using collect_links_length [of count "[]" "[]" "anchors pg"] by (simp add: people_def max.commute)

text \<open>
  C7, as stated, fails: on a page where the profile script yields one profile, a search for
  five evaluates the script once, never scrolls and returns that one profile, while the post
  search on the same page uses all seven attempts of its budget.
\<close>

theorem search_profiles_counterexample:
  "fst (do_search_profiles people_env ''ada'' 5 fresh_disk)
     = Returns (FoundProfiles [ada] 1 ''ada'') \<and>
   evaluations (snd (snd (do_search_profiles people_env ''ada'' 5 fresh_disk))) = 1 \<and>
   scrolls (snd (snd (do_search_profiles people_env ''ada'' 5 fresh_disk))) = 0 \<and>
   attempts 5 = 7 \<and>
   evaluations (snd (snd (do_search_posts people_env ''ada'' 5 fresh_disk))) = 7 \<and>
   scrolls (snd (snd (do_search_posts people_env ''ada'' 5 fresh_disk))) = 7"
  by code_simp

text \<open>
  C7, amended. The profile search collects each profile at most once, by its address, and
  at most count profiles, but with a single extraction and no scroll: after the
  authentication check it evaluates the profile script once, with count as its argument,
  and returns what that one evaluation yields, whether or not count items were found.
\<close>

theorem search_profiles_single_extraction:
  "scrolls (snd (snd (do_search_profiles E query count s))) = 0 \<and>
   evaluations (snd (snd (do_search_profiles E query count s))) \<le> 1 \<and>
   (\<not> py_in ''login'' (url (site E (people_url E query))) \<longrightarrow>
      snd (snd (do_search_profiles E query count s))
        = [Goto (people_url E query), WaitForTimeout 5000, Evaluate (ProfilesScript count),
           ContextCookies] \<and>
      (\<forall>e. fst (do_search_profiles E query count s) = Returns e \<longrightarrow>
         e = FoundProfiles (people (site E (people_url E query)) count)
               (length (people (site E (people_url E query)) count)) query) \<and>
      (save_completes E (site E (people_url E query)) s \<longrightarrow>
         fst (do_search_profiles E query count s)
           = Returns (FoundProfiles (people (site E (people_url E query)) count)
               (length (people (site E (people_url E query)) count)) query)) \<and>
      distinct (map person_url (people (site E (people_url E query)) count)) \<and>
      int (length (people (site E (people_url E query)) count)) \<le> max 0 count)"
proof (intro conjI impI allI)
  let ?pg = "site E (people_url E query)"
  have evs: "snd (snd (do_search_profiles E query count s)) =
     (if py_in ''login'' (url ?pg) then [Goto (people_url E query)]
      else [Goto (people_url E query), WaitForTimeout 5000, Evaluate (ProfilesScript count),
            ContextCookies])"
    by (simp add: do_search_profiles_login do_search_profiles_run)
  show "scrolls (snd (snd (do_search_profiles E query count s))) = 0"
    unfolding evs by (simp add: scrolls_def)
  show "evaluations (snd (snd (do_search_profiles E query count s))) \<le> 1"
    unfolding evs by simp
  show "distinct (map person_url (people ?pg count))" by (rule people_distinct)
  show "int (length (people ?pg count)) \<le> max 0 count" by (rule people_length)
  assume nl: "\<not> py_in ''login'' (url ?pg)"
  note run = do_search_profiles_run [OF nl, of count s]
  from nl show "snd (snd (do_search_profiles E query count s))
        = [Goto (people_url E query), WaitForTimeout 5000, Evaluate (ProfilesScript count),
           ContextCookies]"
    unfolding evs by simp
  show "e = FoundProfiles (people ?pg count) (length (people ?pg count)) query"
    if "fst (do_search_profiles E query count s) = Returns e" for e
    using that unfolding run by (rule save_and_return_fst)
  show "fst (do_search_profiles E query count s)
           = Returns (FoundProfiles (people ?pg count) (length (people ?pg count)) query)"
    if "save_completes E ?pg s"
    unfolding run using that by (rule save_completes_returns)
qed

theorem search_profiles_single_extraction_witness:
  "\<not> py_in ''login'' (url (site people_env (people_url people_env ''ada''))) \<and>
   save_completes people_env (site people_env (people_url people_env ''ada'')) fresh_disk \<and>
   people (site people_env (people_url people_env ''ada'')) 5 = [ada] \<and>
   fst (do_search_profiles people_env ''ada'' 5 fresh_disk)
     = Returns (FoundProfiles [ada] 1 ''ada'') \<and>
   snd (snd (do_search_profiles people_env ''ada'' 5 fresh_disk))
     = [Goto (people_url people_env ''ada''), WaitForTimeout 5000, Evaluate (ProfilesScript 5),
        ContextCookies] \<and>
   distinct (map person_url [ada]) \<and> int (length [ada]) \<le> max 0 5"
proof -
  have a: "\<not> py_in ''login'' (url (site people_env (people_url people_env ''ada'')))"
    by code_simp
  have b: "save_completes people_env (site people_env (people_url people_env ''ada'')) fresh_disk"
    by code_simp
  have c: "people (site people_env (people_url people_env ''ada'')) 5 = [ada]"
    by code_simp
  from search_profiles_single_extraction [of people_env "''ada''" 5 fresh_disk] a b
  have "snd (snd (do_search_profiles people_env ''ada'' 5 fresh_disk))
        = [Goto (people_url people_env ''ada''), WaitForTimeout 5000, Evaluate (ProfilesScript 5),
           ContextCookies] \<and>
      fst (do_search_profiles people_env ''ada'' 5 fresh_disk)
           = Returns (FoundProfiles (people (site people_env (people_url people_env ''ada'')) 5)
               (length (people (site people_env (people_url people_env ''ada'')) 5)) ''ada'')"
    by blast
  with a b c show ?thesis by simp
qed

section \<open>The post interaction\<close>

lemma save_and_return_snd:
  "snd (save_and_return E pg jar s evs e) = snd (save_and_return E pg jar s evs e')"
  by (auto simp: save_and_return_def split: prod.splits outcome.splits)

lemma save_and_return_with_action:
  "fst (save_and_return E pg jar s evs (PostView a' p cs n))
   = with_action a' (fst (save_and_return E pg jar s evs (PostView a p cs n)))"
  by (auto simp: save_and_return_def with_action_def split: prod.splits outcome.splits)

lemma with_action_error [simp]: "with_action a (Returns (Error m)) = Returns (Error m)"
  by (simp add: with_action_def)

lemma open_comments_events:
  "set (snd (open_comments pg)) \<subseteq> {LocatorCount, Click, WaitForTimeout 2000}"
  by (auto simp: open_comments_def)

text \<open>
  C10. Two invocations of the post interaction on the same post address that differ in the
  action and in the comment do the same things to the page and to the directory, and their
  outcomes differ at most in the action echoed in the envelope: the extracted post and
  comments are the same. The comment is never used, the echoed action is the action given,
  and the page is only navigated to, waited on, asked for the comments button, clicked once
  on that button and read by the extraction script: nothing is typed and no like or comment
  is submitted.
\<close>

theorem interact_post_ignores_action_and_comment:
  "snd (do_interact_post E post_url action comment s)
     = snd (do_interact_post E post_url action' comment' s) \<and>
   fst (do_interact_post E post_url action' comment' s)
     = with_action action' (fst (do_interact_post E post_url action comment s)) \<and>
   do_interact_post E post_url action comment s = do_interact_post E post_url action None s \<and>
   (\<forall>a p cs n. fst (do_interact_post E post_url action comment s) = Returns (PostView a p cs n)
      \<longrightarrow> a = action) \<and>
   set (snd (snd (do_interact_post E post_url action comment s)))
     \<subseteq> {Goto post_url, WaitForTimeout 5000, LocatorCount, Click, WaitForTimeout 2000,
         Evaluate PostScript, ContextCookies}"
proof (cases "py_in ''linkedin.com/posts/'' post_url \<or> py_in ''linkedin.com/feed/update/'' post_url")
  case False
  then show ?thesis by (simp add: do_interact_post_invalid)
next
  case valid: True
  show ?thesis
  proof (cases "py_in ''login'' (url (site E post_url))")
    case True
    then show ?thesis by (simp add: do_interact_post_login [OF valid])
  next
    case False
    note run = do_interact_post_run [OF valid False]
    have 1: "snd (do_interact_post E post_url action comment s)
        = snd (do_interact_post E post_url action' comment' s)"
      unfolding run by (rule save_and_return_snd)
    have 2: "fst (do_interact_post E post_url action' comment' s)
        = with_action action' (fst (do_interact_post E post_url action comment s))"
      unfolding run by (rule save_and_return_with_action)
    have 3: "do_interact_post E post_url action comment s = do_interact_post E post_url action None s"
      unfolding run ..
    have 4: "a = action"
      if "fst (do_interact_post E post_url action comment s) = Returns (PostView a p cs n)" for a p cs n
      using that unfolding run by (auto dest: save_and_return_fst)
    have 5: "set (snd (snd (do_interact_post E post_url action comment s)))
     \<subseteq> {Goto post_url, WaitForTimeout 5000, LocatorCount, Click, WaitForTimeout 2000,
         Evaluate PostScript, ContextCookies}"
      unfolding run using open_comments_events [of "site E post_url"] by auto
    from 1 2 3 4 5 show ?thesis by blast
  qed
qed

theorem interact_post_ignores_action_and_comment_witness:
  "do_interact_post post_env post_address ''like'' None fresh_disk
     = (Returns (PostView ''like'' [(''author'', ''Ada'')] [[(''author'', ''Bob''), (''text'', ''Nice'')]] 1),
        fst (snd (do_interact_post post_env post_address ''like'' None fresh_disk)),
        [Goto post_address, WaitForTimeout 5000, LocatorCount, Click, WaitForTimeout 2000,
         Evaluate PostScript, ContextCookies]) \<and>
   do_interact_post post_env post_address ''comment'' (Some ''hello'') fresh_disk
     = (Returns (PostView ''comment'' [(''author'', ''Ada'')] [[(''author'', ''Bob''), (''text'', ''Nice'')]] 1),
        fst (snd (do_interact_post post_env post_address ''like'' None fresh_disk)),
        [Goto post_address, WaitForTimeout 5000, LocatorCount, Click, WaitForTimeout 2000,
         Evaluate PostScript, ContextCookies])"
proof -
  have like: "fst (do_interact_post post_env post_address ''like'' None fresh_disk)
     = Returns (PostView ''like'' [(''author'', ''Ada'')] [[(''author'', ''Bob''), (''text'', ''Nice'')]] 1)"
    by code_simp
  have evs: "snd (snd (do_interact_post post_env post_address ''like'' None fresh_disk))
     = [Goto post_address, WaitForTimeout 5000, LocatorCount, Click, WaitForTimeout 2000,
         Evaluate PostScript, ContextCookies]"
    by code_simp
  from interact_post_ignores_action_and_comment [of post_env post_address "''like''" None fresh_disk
      "''comment''" "Some ''hello''"]
  have "snd (do_interact_post post_env post_address ''comment'' (Some ''hello'') fresh_disk)
          = snd (do_interact_post post_env post_address ''like'' None fresh_disk)"
    and "fst (do_interact_post post_env post_address ''comment'' (Some ''hello'') fresh_disk)
          = with_action ''comment'' (fst (do_interact_post post_env post_address ''like'' None fresh_disk))"
    by simp_all
  with like evs show ?thesis
    by (simp add: with_action_def prod_eq_iff)
qed

section \<open>Saving the cookies\<close>

lemma key_file_neq_cookie_file [simp]: "key_file \<noteq> cookie_file platform" "cookie_file platform \<noteq> key_file"
proof -
  have "last key_file = CHR ''y''" by (simp add: key_file_def)
  moreover have "last (cookie_file platform) = CHR ''n''" by (simp add: cookie_file_def)
  ultimately show "key_file \<noteq> cookie_file platform" by auto
  then show "cookie_file platform \<noteq> key_file" by simp
qed

lemma owner_only_masked: "u AND 63 = 63 \<Longrightarrow> owner_only (m AND NOT u)"
proof -
  assume u: "u AND 63 = 63"
  have "(m AND NOT u) AND 63 = m AND (NOT u AND 63)" by (simp add: and.assoc)
  also have "NOT u AND 63 = NOT u AND (u AND 63)" using u by simp
  also have "\<dots> = 0" by (simp add: and.assoc [symmetric])
  finally show ?thesis by (simp add: owner_only_def)
qed

text \<open>What the file operations do to modes and to other files.\<close>

lemma open_wb_fields [simp]:
  "dir_perm (open_wb n s) = dir_perm s" "umask (open_wb n s) = umask s" "room (open_wb n s) = room s"
  by (simp_all add: open_wb_def split: option.splits)

lemma open_wb_entries:
  "entries (open_wb n s) n' =
     (if n' = n
      then Some (case entries s n of None \<Rightarrow> \<lparr>data = [], perm = 438 AND NOT (umask s)\<rparr>
                 | Some f \<Rightarrow> f\<lparr>data := []\<rparr>)
      else entries s n')"
  by (simp add: open_wb_def split: option.splits)

lemma write_bytes_fields [simp]:
  "dir_perm (snd (write_bytes n bs s)) = dir_perm s" "umask (snd (write_bytes n bs s)) = umask s"
  by (simp_all add: write_bytes_def split: option.splits)

lemma write_bytes_other: "n' \<noteq> n \<Longrightarrow> entries (snd (write_bytes n bs s)) n' = entries s n'"
  by (simp add: write_bytes_def split: option.splits)

lemma write_bytes_mode: "mode_of (snd (write_bytes n bs s)) n' = mode_of s n'"
  by (simp add: mode_of_def write_bytes_def split: option.splits)

lemma open_wb_mode:
  "mode_of (open_wb n s) n' =
     (if n' = n \<and> entries s n = None then Some (438 AND NOT (umask s)) else mode_of s n')"
  by (simp add: mode_of_def open_wb_entries split: option.splits)

lemma mode_of_setup [simp]: "mode_of (setup_sessions_directory s) n = mode_of s n"
  by (simp add: mode_of_def setup_sessions_directory_def split: option.splits)

lemma write_bytes_data:
  "entries s n = Some f \<Longrightarrow>
   write_bytes n bs s =
     (case room s of
        None \<Rightarrow> (Returns (), s\<lparr>entries := (entries s)(n \<mapsto> f\<lparr>data := data f @ bs\<rparr>)\<rparr>)
      | Some k \<Rightarrow>
          if length bs \<le> k
          then (Returns (), s\<lparr>entries := (entries s)(n \<mapsto> f\<lparr>data := data f @ bs\<rparr>),
                               room := Some (k - length bs)\<rparr>)
          else (Raises OSError, s\<lparr>entries := (entries s)(n \<mapsto> f\<lparr>data := data f @ take k bs\<rparr>),
                                 room := Some 0\<rparr>))"
  by (simp add: write_bytes_def)

lemma setup_fields [simp]:
  "entries (setup_sessions_directory s) = entries s" "umask (setup_sessions_directory s) = umask s"
  "room (setup_sessions_directory s) = room s" "locked (setup_sessions_directory s) = locked s"
  "dir_perm (setup_sessions_directory s)
     = Some (case dir_perm s of None \<Rightarrow> 511 AND NOT (umask s) | Some m \<Rightarrow> m)"
  by (simp_all add: setup_sessions_directory_def split: option.splits)

lemma obtain_key_snd:
  "snd (obtain_key L s) =
     (if entries s key_file \<noteq> None then s
      else snd (write_bytes key_file (generate_key L) (open_wb key_file s)))"
proof (cases "write_bytes key_file (generate_key L) (open_wb key_file s)")
  case (Pair r s')
  then show ?thesis by (cases r) (simp_all add: obtain_key_def path_exists_key_file)
qed

lemma obtain_key_fields [simp]:
  "dir_perm (snd (obtain_key L s)) = dir_perm s" "umask (snd (obtain_key L s)) = umask s"
  by (simp_all add: obtain_key_snd)

lemma obtain_key_existing:
  "entries s key_file = Some k \<Longrightarrow> obtain_key L s = (Returns (data k), s)"
  by (simp add: obtain_key_def path_exists_key_file read_bytes_def)

lemma obtain_key_other:
  "n \<noteq> key_file \<Longrightarrow> entries (snd (obtain_key L s)) n = entries s n"
  by (simp add: obtain_key_snd open_wb_entries write_bytes_other)

lemma obtain_key_mode:
  "mode_of (snd (obtain_key L s)) n =
     (if n = key_file \<and> entries s key_file = None then Some (438 AND NOT (umask s))
      else mode_of s n)"
  by (auto simp: obtain_key_snd write_bytes_mode open_wb_mode)

text \<open>The save as its two phases: the key, then the bundle written in place.\<close>

lemma save_cookies_phases:
  "save_cookies L now jar platform s =
     (case obtain_key L (setup_sessions_directory s) of
        (Raises e, s1) \<Rightarrow> (Raises e, s1)
      | (Returns key, s1) \<Rightarrow>
          if \<not> key_ok L key then (Raises ValueError, s1)
          else write_bytes (cookie_file platform) (bundle_bytes L key now jar)
                 (open_wb (cookie_file platform) s1))"
  unfolding save_cookies_def bundle_bytes_def ..

lemma save_cookies_dir:
  "dir_perm (snd (save_cookies L now jar platform s))
     = Some (case dir_perm s of None \<Rightarrow> 511 AND NOT (umask s) | Some m \<Rightarrow> m)"
proof (cases "obtain_key L (setup_sessions_directory s)")
  case (Pair r s1)
  then have "dir_perm s1 = Some (case dir_perm s of None \<Rightarrow> 511 AND NOT (umask s) | Some m \<Rightarrow> m)"
    using obtain_key_fields(1) [of L "setup_sessions_directory s"] by simp
  with Pair show ?thesis by (cases r) (simp_all add: save_cookies_phases)
qed

text \<open>The mode of a name after the save, \<open>opened\<close> telling whether the bundle file was
  reached.\<close>

lemma save_cookies_mode:
  "mode_of (snd (save_cookies L now jar platform s)) n =
     (if n = key_file \<and> entries s key_file = None then Some (438 AND NOT (umask s))
      else if n = cookie_file platform \<and> entries s (cookie_file platform) = None \<and>
              (\<exists>key. fst (obtain_key L (setup_sessions_directory s)) = Returns key \<and> key_ok L key)
           then Some (438 AND NOT (umask s))
      else mode_of s n)"
proof (cases "obtain_key L (setup_sessions_directory s)")
  case (Pair r s1)
  have m: "mode_of s1 n =
     (if n = key_file \<and> entries s key_file = None then Some (438 AND NOT (umask s))
      else mode_of s n)" for n
    using obtain_key_mode [of L "setup_sessions_directory s" n] Pair by simp
  have e: "entries s1 (cookie_file platform) = entries s (cookie_file platform)"
    using obtain_key_other [of "cookie_file platform" L "setup_sessions_directory s"] Pair by simp
  have u: "umask s1 = umask s"
    using obtain_key_fields(2) [of L "setup_sessions_directory s"] Pair by simp
  show ?thesis
  proof (cases r)
    case (Raises x)
    with Pair m show ?thesis by (simp add: save_cookies_phases)
  next
    case (Returns key)
    with Pair m e u show ?thesis
      by (simp add: save_cookies_phases write_bytes_mode open_wb_mode)
  qed
qed

lemma save_cookies_reached:
  "fst (save_cookies L now jar platform s) = Returns () \<Longrightarrow>
   \<exists>key. fst (obtain_key L (setup_sessions_directory s)) = Returns key \<and> key_ok L key"
  by (cases "obtain_key L (setup_sessions_directory s)")
     (auto simp: save_cookies_phases split: outcome.splits if_splits)

lemma save_cookies_with_key:
  assumes "entries s key_file = Some k" and "key_ok L (data k)"
  shows "save_cookies L now jar platform s =
     write_bytes (cookie_file platform) (bundle_bytes L (data k) now jar)
       (open_wb (cookie_file platform) (setup_sessions_directory s))"
  using assms by (simp add: save_cookies_phases obtain_key_existing)

lemma save_cookies_bad_key:
  assumes "entries s key_file = Some k" and "\<not> key_ok L (data k)"
  shows "save_cookies L now jar platform s = (Raises ValueError, setup_sessions_directory s)"
  using assms by (simp add: save_cookies_phases obtain_key_existing)

lemma write_after_open:
  "write_bytes n bs (open_wb n s) =
     (case room s of
        None \<Rightarrow> (Returns (), snd (write_bytes n bs (open_wb n s)))
      | Some r \<Rightarrow> (if length bs \<le> r then Returns () else Raises OSError,
                   snd (write_bytes n bs (open_wb n s))))"
  by (simp add: write_bytes_def open_wb_def split: option.splits)

lemma data_after_open_write:
  "map_option data (entries (snd (write_bytes n bs (open_wb n s))) n) =
     Some (case room s of None \<Rightarrow> bs | Some r \<Rightarrow> if length bs \<le> r then bs else take r bs)"
  by (simp add: write_bytes_def open_wb_def split: option.splits)

lemma other_after_open_write:
  "n' \<noteq> n \<Longrightarrow> entries (snd (write_bytes n bs (open_wb n s))) n' = entries s n'"
  by (simp add: write_bytes_other open_wb_entries)

text \<open>
  C6, as stated, fails: with a valid stored bundle and a disk that takes two more bytes, the
  save raises OSError after it has truncated the bundle file and written two bytes into it;
  the previous bundle is gone and a load then returns \<^verbatim>\<open>False\<close>.
\<close>

theorem save_in_place_counterexample:
  "fst (load_cookies demo_libs 87000 ''linkedin'' [] full_disk) = Returns True \<and>
   fst (save_cookies demo_libs 87000 [] ''linkedin'' full_disk) = Raises OSError \<and>
   entries (snd (save_cookies demo_libs 87000 [] ''linkedin'' full_disk)) (cookie_file ''linkedin'')
     = Some \<lparr>data = ''en'', perm = 420\<rparr> \<and>
   entries (snd (save_cookies demo_libs 87000 [] ''linkedin'' full_disk)) (cookie_file ''linkedin'')
     \<noteq> entries full_disk (cookie_file ''linkedin'') \<and>
   fst (load_cookies demo_libs 87000 ''linkedin'' []
          (snd (save_cookies demo_libs 87000 [] ''linkedin'' full_disk))) = Returns False"
  by (simp add: full_disk_def stored_disk_def demo_defs vault_defs)

text \<open>
  C6, amended. The save writes the encrypted bundle in place: it opens the bundle file
  itself for writing, which truncates it, and writes the new bytes; there is no temporary
  file and no rename, and no other file of the directory changes when the key exists. A save
  that completes leaves exactly the new bundle. A save that fails before the bundle file is
  opened (a malformed key) leaves every file as it was. A save that fails while writing
  leaves only the bytes written so far in the bundle file, not the previous bundle.
\<close>

theorem save_cookies_in_place:
  "(entries s key_file = Some k \<and> key_ok L (data k) \<longrightarrow>
      (room s = None \<or> (\<exists>n. room s = Some n \<and> length (bundle_bytes L (data k) now jar) \<le> n) \<longrightarrow>
         fst (save_cookies L now jar platform s) = Returns () \<and>
         map_option data (entries (snd (save_cookies L now jar platform s)) (cookie_file platform))
           = Some (bundle_bytes L (data k) now jar)) \<and>
      (\<forall>n. room s = Some n \<and> n < length (bundle_bytes L (data k) now jar) \<longrightarrow>
         fst (save_cookies L now jar platform s) = Raises OSError \<and>
         map_option data (entries (snd (save_cookies L now jar platform s)) (cookie_file platform))
           = Some (take n (bundle_bytes L (data k) now jar))) \<and>
      (\<forall>name. name \<noteq> cookie_file platform \<longrightarrow>
         entries (snd (save_cookies L now jar platform s)) name = entries s name)) \<and>
   (entries s key_file = Some k \<and> \<not> key_ok L (data k) \<longrightarrow>
      fst (save_cookies L now jar platform s) = Raises ValueError \<and>
      entries (snd (save_cookies L now jar platform s)) = entries s)"
proof (intro conjI impI allI)
  assume h: "entries s key_file = Some k \<and> key_ok L (data k)"
  let ?bs = "bundle_bytes L (data k) now jar"
  let ?s1 = "setup_sessions_directory s"
  have run: "save_cookies L now jar platform s
      = write_bytes (cookie_file platform) ?bs (open_wb (cookie_file platform) ?s1)"
    using h by (simp add: save_cookies_with_key)
  have res: "fst (save_cookies L now jar platform s) =
      (case room s of None \<Rightarrow> Returns ()
       | Some r \<Rightarrow> if length ?bs \<le> r then Returns () else Raises OSError)"
    unfolding run by (subst write_after_open) (simp split: option.splits)
  have dat: "map_option data (entries (snd (save_cookies L now jar platform s)) (cookie_file platform)) =
     Some (case room s of None \<Rightarrow> ?bs | Some r \<Rightarrow> if length ?bs \<le> r then ?bs else take r ?bs)"
    unfolding run by (simp add: data_after_open_write)
  {
    assume "room s = None \<or> (\<exists>n. room s = Some n \<and> length ?bs \<le> n)"
    then show "fst (save_cookies L now jar platform s) = Returns ()"
      and "map_option data (entries (snd (save_cookies L now jar platform s)) (cookie_file platform))
           = Some ?bs"
      unfolding res dat by auto
  }
  {
    fix n assume "room s = Some n \<and> n < length ?bs"
    then show "fst (save_cookies L now jar platform s) = Raises OSError"
      and "map_option data (entries (snd (save_cookies L now jar platform s)) (cookie_file platform))
           = Some (take n ?bs)"
      unfolding res dat by auto
  }
  {
    fix name assume "name \<noteq> cookie_file platform"
    then show "entries (snd (save_cookies L now jar platform s)) name = entries s name"
      unfolding run by (simp add: other_after_open_write)
  }
next
  assume h: "entries s key_file = Some k \<and> \<not> key_ok L (data k)"
  then show "fst (save_cookies L now jar platform s) = Raises ValueError"
    and "entries (snd (save_cookies L now jar platform s)) = entries s"
    by (simp_all add: save_cookies_bad_key)
qed

theorem save_cookies_in_place_witness:
  "entries full_disk key_file = Some \<lparr>data = ''K'', perm = 420\<rparr> \<and> key_ok demo_libs ''K'' \<and>
   bundle_bytes demo_libs ''K'' 87000 [] = ''enc:fresh'' \<and>
   room full_disk = Some 2 \<and> 2 < length ''enc:fresh'' \<and>
   fst (save_cookies demo_libs 87000 [] ''linkedin'' full_disk) = Raises OSError \<and>
   map_option data (entries (snd (save_cookies demo_libs 87000 [] ''linkedin'' full_disk))
       (cookie_file ''linkedin'')) = Some ''en'' \<and>
   room (stored_disk ''enc:stale'') = None \<and>
   fst (save_cookies demo_libs 87000 [] ''linkedin'' (stored_disk ''enc:stale'')) = Returns () \<and>
   map_option data (entries (snd (save_cookies demo_libs 87000 [] ''linkedin'' (stored_disk ''enc:stale'')))
       (cookie_file ''linkedin'')) = Some ''enc:fresh''"
proof -
  have k: "entries full_disk key_file = Some \<lparr>data = ''K'', perm = 420\<rparr>"
    "entries (stored_disk ''enc:stale'') key_file = Some \<lparr>data = ''K'', perm = 420\<rparr>"
    by (simp_all add: full_disk_def stored_disk_def key_file_def)
  have ok: "key_ok demo_libs ''K''" by (simp add: demo_libs_def)
  have b: "bundle_bytes demo_libs ''K'' 87000 [] = ''enc:fresh''"
    by (simp add: bundle_bytes_def demo_libs_def)
  have r: "room full_disk = Some 2" "room (stored_disk ''enc:stale'') = None"
    by (simp_all add: full_disk_def stored_disk_def)
  from save_cookies_in_place [of full_disk "\<lparr>data = ''K'', perm = 420\<rparr>" demo_libs 87000 "[]" "''linkedin''"]
    k ok b r
  have 1: "fst (save_cookies demo_libs 87000 [] ''linkedin'' full_disk) = Raises OSError \<and>
   map_option data (entries (snd (save_cookies demo_libs 87000 [] ''linkedin'' full_disk))
       (cookie_file ''linkedin'')) = Some (take 2 ''enc:fresh'')"
    by simp
  from save_cookies_in_place [of "stored_disk ''enc:stale''" "\<lparr>data = ''K'', perm = 420\<rparr>" demo_libs
      87000 "[]" "''linkedin''"] k ok b r
  have 2: "fst (save_cookies demo_libs 87000 [] ''linkedin'' (stored_disk ''enc:stale'')) = Returns () \<and>
   map_option data (entries (snd (save_cookies demo_libs 87000 [] ''linkedin'' (stored_disk ''enc:stale'')))
       (cookie_file ''linkedin'')) = Some ''enc:fresh''"
    by simp
  from 1 2 k ok b r show ?thesis by simp
qed

text \<open>
  C8, as stated, fails: under the umask \<open>0o022 = 18\<close> the save creates the directory
  with mode \<open>0o755 = 493\<close> and the key and cookie files with mode \<open>0o644 = 420\<close>,
  readable by group and others.
\<close>

theorem save_modes_counterexample:
  "umask fresh_disk = 18 \<and>
   fst (save_cookies demo_libs 87000 [] ''linkedin'' fresh_disk) = Returns () \<and>
   dir_perm (snd (save_cookies demo_libs 87000 [] ''linkedin'' fresh_disk)) = Some 493 \<and>
   entries (snd (save_cookies demo_libs 87000 [] ''linkedin'' fresh_disk)) key_file
     = Some \<lparr>data = ''K'', perm = 420\<rparr> \<and>
   entries (snd (save_cookies demo_libs 87000 [] ''linkedin'' fresh_disk)) (cookie_file ''linkedin'')
     = Some \<lparr>data = ''enc:fresh'', perm = 420\<rparr> \<and>
   \<not> owner_only 493 \<and> \<not> owner_only 420"
  by (simp add: demo_defs vault_defs owner_only_def)

text \<open>
  C8, amended. The save asks for mode \<open>0o777\<close> for the sessions directory and opens the
  key file and the cookie file with the default mode \<open>0o666\<close>; what it creates has these
  modes without the bits of the process umask, and what exists already keeps its mode. So
  the storage is restricted to the owning user when the umask removes every bit of group and
  others (\<open>0o077\<close>), and it is not under the umask \<open>0o022\<close>.
\<close>

theorem save_modes_follow_umask:
  "dir_perm (snd (save_cookies L now jar platform s))
     = Some (case dir_perm s of None \<Rightarrow> 511 AND NOT (umask s) | Some m \<Rightarrow> m) \<and>
   (fst (save_cookies L now jar platform s) = Returns () \<longrightarrow>
      mode_of (snd (save_cookies L now jar platform s)) key_file
        = Some (case mode_of s key_file of None \<Rightarrow> 438 AND NOT (umask s) | Some m \<Rightarrow> m) \<and>
      mode_of (snd (save_cookies L now jar platform s)) (cookie_file platform)
        = Some (case mode_of s (cookie_file platform) of None \<Rightarrow> 438 AND NOT (umask s) | Some m \<Rightarrow> m)) \<and>
   (umask s AND 63 = 63 \<longrightarrow>
      owner_only (511 AND NOT (umask s)) \<and> owner_only (438 AND NOT (umask s))) \<and>
   (umask s = 18 \<longrightarrow>
      \<not> owner_only (511 AND NOT (umask s)) \<and> \<not> owner_only (438 AND NOT (umask s)))"
proof (intro conjI impI)
  show "dir_perm (snd (save_cookies L now jar platform s))
     = Some (case dir_perm s of None \<Rightarrow> 511 AND NOT (umask s) | Some m \<Rightarrow> m)"
    by (rule save_cookies_dir)
next
  assume ok: "fst (save_cookies L now jar platform s) = Returns ()"
  have none: "entries s n = None \<longleftrightarrow> mode_of s n = None" for n
    by (simp add: mode_of_def)
  show "mode_of (snd (save_cookies L now jar platform s)) key_file
        = Some (case mode_of s key_file of None \<Rightarrow> 438 AND NOT (umask s) | Some m \<Rightarrow> m)"
    by (simp add: save_cookies_mode none split: option.splits)
  from save_cookies_reached [OF ok]
  show "mode_of (snd (save_cookies L now jar platform s)) (cookie_file platform)
        = Some (case mode_of s (cookie_file platform) of None \<Rightarrow> 438 AND NOT (umask s) | Some m \<Rightarrow> m)"
    by (simp add: save_cookies_mode none split: option.splits)
next
  assume "umask s AND 63 = 63"
  then show "owner_only (511 AND NOT (umask s))" and "owner_only (438 AND NOT (umask s))"
    by (rule owner_only_masked)+
next
  assume "umask s = 18"
  then show "\<not> owner_only (511 AND NOT (umask s))" and "\<not> owner_only (438 AND NOT (umask s))"
    by (simp_all add: owner_only_def)
qed

theorem save_modes_follow_umask_witness:
  "umask private_disk = 63 \<and> (63::int) AND 63 = 63 \<and>
   fst (save_cookies demo_libs 87000 [] ''linkedin'' private_disk) = Returns () \<and>
   dir_perm (snd (save_cookies demo_libs 87000 [] ''linkedin'' private_disk)) = Some 448 \<and>
   mode_of (snd (save_cookies demo_libs 87000 [] ''linkedin'' private_disk)) key_file = Some 384 \<and>
   mode_of (snd (save_cookies demo_libs 87000 [] ''linkedin'' private_disk)) (cookie_file ''linkedin'')
     = Some 384 \<and>
   owner_only 448 \<and> owner_only 384"
proof -
  have u: "umask private_disk = 63" "dir_perm private_disk = None"
    "mode_of private_disk key_file = None" "mode_of private_disk (cookie_file ''linkedin'') = None"
    by (simp_all add: private_disk_def fresh_disk_def mode_of_def)
  have ok: "fst (save_cookies demo_libs 87000 [] ''linkedin'' private_disk) = Returns ()"
    by (simp add: private_disk_def demo_defs vault_defs)
  have n: "(511::int) AND NOT 63 = 448" "(438::int) AND NOT 63 = 384" "(63::int) AND 63 = 63"
    by simp_all
  from save_modes_follow_umask [of demo_libs 87000 "[]" "''linkedin''" private_disk] u ok n
  show ?thesis by simp
qed

end
